theory Spec2Isabelle
  imports Complex_Main "HOL-Library.Char_ord" "HOL-Library.List_Lexorder"
begin

section \<open>Python values used by app.py\<close>

text \<open>
  The exceptions that the modelled part of \<^verbatim>\<open>app.py\<close> can raise: \<^verbatim>\<open>int(node)\<close> on a
  string that is not a number, \<^verbatim>\<open>graph_data["edges"]\<close> on a document without that field,
  and \<^verbatim>\<open>G.add_edges_from\<close> on a stored edge that is not a pair. The plotting library
  raises errors of its own kinds when it cannot draw; the model takes what it raises as
  given.
\<close>

datatype py_error = ValueError | KeyError | NetworkXError

text \<open>
  \<^verbatim>\<open>str(member.id)\<close>: the decimal digits of a non-negative identifier (Discord
  identifiers are unsigned 64-bit snowflakes; Python's \<^verbatim>\<open>int\<close> is unbounded, so is \<open>nat\<close>).
\<close>

definition digit_char :: "nat \<Rightarrow> char" where
  "digit_char d = char_of (48 + d)"

fun py_str :: "nat \<Rightarrow> string" where
  "py_str n = (if n < 10 then [digit_char n] else py_str (n div 10) @ [digit_char (n mod 10)])"

declare py_str.simps [simp del]

text \<open>
  \<^verbatim>\<open>int(node)\<close> on a stored node string. The model reads a non-empty string of ASCII
  decimal digits and raises \<^verbatim>\<open>ValueError\<close> (here \<open>None\<close>) on every other string. Python's
  \<^verbatim>\<open>int\<close> also accepts a sign, surrounding blanks and underscores between digits; the
  strings that \<^verbatim>\<open>connect\<close> writes are results of \<^verbatim>\<open>str\<close> and have none of them.
\<close>

definition digit_val :: "char \<Rightarrow> nat option" where
  "digit_val c = (if CHR ''0'' \<le> c \<and> c \<le> CHR ''9'' then Some (of_char c - 48) else None)"

fun py_int_from :: "nat \<Rightarrow> string \<Rightarrow> nat option" where
  "py_int_from acc [] = Some acc"
| "py_int_from acc (c # cs) =
     (case digit_val c of None \<Rightarrow> None | Some d \<Rightarrow> py_int_from (10 * acc + d) cs)"

definition py_int :: "string \<Rightarrow> nat option" where
  "py_int s = (if s = [] then None else py_int_from 0 s)"

text \<open>
  \<^verbatim>\<open>str.lower()\<close> on the content of a message. Strings are byte lists (UTF-8); the model
  lowers the ASCII capitals and leaves every other byte alone. No character outside ASCII
  has \<^verbatim>\<open>y\<close>, \<^verbatim>\<open>e\<close> or \<^verbatim>\<open>s\<close> as its lower case, so the comparison with \<^verbatim>\<open>"yes"\<close> decides the same.
\<close>

definition lower_char :: "char \<Rightarrow> char" where
  "lower_char c = (if CHR ''A'' \<le> c \<and> c \<le> CHR ''Z'' then char_of (of_char c + (32::nat)) else c)"

definition py_lower :: "string \<Rightarrow> string" where
  "py_lower s = map lower_char s"

text \<open>
  \<^verbatim>\<open>itertools.combinations(xs, 2)\<close>: every pair of positions \<open>i < j\<close>, in lexicographic
  order of the positions.
\<close>

fun combinations2 :: "'a list \<Rightarrow> ('a \<times> 'a) list" where
  "combinations2 [] = []"
| "combinations2 (x # xs) = map (Pair x) xs @ combinations2 xs"

section \<open>The chat platform's objects\<close>

record member =
  uid :: nat
  display_name :: string

record guild =
  guild_id :: nat
  guild_name :: string
  guild_members :: "member list"

text \<open>\<^verbatim>\<open>guild.get_member(i)\<close>: the member with that identifier, or \<^verbatim>\<open>None\<close>.\<close>

definition get_member :: "guild \<Rightarrow> nat \<Rightarrow> member option" where
  "get_member g i = find (\<lambda>m. uid m = i) (guild_members g)"

text \<open>
  A message as \<^verbatim>\<open>bot.wait_for('message', ...)\<close> sees it: who wrote it, where, what, and
  how many seconds after the wait began it was dispatched.
\<close>

record message =
  msg_author :: nat
  msg_channel :: nat
  msg_content :: string
  msg_arrival :: real

text \<open>
  The command context: \<^verbatim>\<open>ctx.guild\<close> (\<^verbatim>\<open>None\<close> in a private conversation),
  \<^verbatim>\<open>ctx.channel.id\<close>, \<^verbatim>\<open>ctx.author\<close>, whether the author holds the administrator permission
  (what \<^verbatim>\<open>has_permissions(administrator=True)\<close> tests) and \<^verbatim>\<open>ctx.message.mentions\<close>.
\<close>

record ctx =
  ctx_guild :: "guild option"
  ctx_channel :: nat
  ctx_author :: nat
  ctx_admin :: bool
  mentions :: "member list"

section \<open>The two collections\<close>

text \<open>
  A document of \<^verbatim>\<open>configs\<close> holds the designated channel; \<^verbatim>\<open>config.get("channel_id")\<close> is
  \<^verbatim>\<open>None\<close> when the field is missing. A document of \<^verbatim>\<open>graphs\<close> holds the arrays \<^verbatim>\<open>nodes\<close> and
  \<^verbatim>\<open>edges\<close>, either of which may be missing. Both collections are read and written
  through the filter \<^verbatim>\<open>{guild_id, channel_id}\<close> only, so a collection is a map from the
  filter's values to the one document that matches it.
\<close>

record config =
  channel_id :: "string option"

record graph_doc =
  nodes :: "string list option"
  edges :: "string list list option"

type_synonym scope = "string \<times> string option"

record db =
  configs_collection :: "string \<rightharpoonup> config"
  graphs_collection :: "scope \<rightharpoonup> graph_doc"

text \<open>The field of a document as an array, empty when the field is missing.\<close>

definition field_or_empty :: "'a list option \<Rightarrow> 'a list" where
  "field_or_empty f = (case f of None \<Rightarrow> [] | Some xs \<Rightarrow> xs)"

text \<open>
  \<^verbatim>\<open>$addToSet\<close> with \<^verbatim>\<open>$each\<close>: each value in turn is appended to the array unless the
  array already holds it.
\<close>

fun add_to_set :: "'a list \<Rightarrow> 'a list \<Rightarrow> 'a list" where
  "add_to_set arr [] = arr"
| "add_to_set arr (x # xs) = add_to_set (if x \<in> set arr then arr else arr @ [x]) xs"

text \<open>
  \<^verbatim>\<open>update_one(filter, {"$addToSet": {"nodes": {"$each": ns}, "edges": {"$each": es}}},
  upsert=True)\<close>: a missing document is created from the filter, a missing array from the
  values.
\<close>

definition update_one_add_to_set ::
  "scope \<Rightarrow> string list \<Rightarrow> string list list \<Rightarrow> (scope \<rightharpoonup> graph_doc) \<Rightarrow> (scope \<rightharpoonup> graph_doc)" where
  "update_one_add_to_set k ns es g =
     (case g k of
        None \<Rightarrow> g(k \<mapsto> \<lparr>nodes = Some (add_to_set [] ns), edges = Some (add_to_set [] es)\<rparr>)
      | Some d \<Rightarrow> g(k \<mapsto> d\<lparr>nodes := Some (add_to_set (field_or_empty (nodes d)) ns),
                             edges := Some (add_to_set (field_or_empty (edges d)) es)\<rparr>))"

text \<open>
  \<^verbatim>\<open>update_one(filter, {"$pull": {"edges": edge}})\<close>: every element of the array equal to
  \<^verbatim>\<open>edge\<close> (same values, same order) is removed. The second component is
  \<^verbatim>\<open>result.modified_count\<close>: 1 when the document changed, 0 when no document matched, the
  field is missing or the array does not hold the edge.
\<close>

definition update_one_pull ::
  "scope \<Rightarrow> string list \<Rightarrow> (scope \<rightharpoonup> graph_doc) \<Rightarrow> (scope \<rightharpoonup> graph_doc) \<times> nat" where
  "update_one_pull k e g =
     (case g k of
        None \<Rightarrow> (g, 0)
      | Some d \<Rightarrow>
          (case edges d of
             None \<Rightarrow> (g, 0)
           | Some es \<Rightarrow>
               if e \<in> set es then (g(k \<mapsto> d\<lparr>edges := Some (filter (\<lambda>x. x \<noteq> e) es)\<rparr>), 1)
               else (g, 0)))"

text \<open>\<^verbatim>\<open>delete_one(filter)\<close>, with \<^verbatim>\<open>result.deleted_count\<close>.\<close>

definition delete_one :: "scope \<Rightarrow> (scope \<rightharpoonup> graph_doc) \<Rightarrow> (scope \<rightharpoonup> graph_doc) \<times> nat" where
  "delete_one k g = (case g k of None \<Rightarrow> (g, 0) | Some d \<Rightarrow> (g(k := None), 1))"

section \<open>The graph library\<close>

text \<open>
  \<^verbatim>\<open>nx.Graph\<close> is an undirected graph without parallel edges: the nodes in the order they
  were added, and each edge as the set of its end points (one element for a loop). The
  order in which the library enumerates edges is not modelled.
\<close>

record nx_graph =
  nx_nodes :: "string list"
  nx_edges :: "string set set"

definition nx_empty :: nx_graph where
  "nx_empty = \<lparr>nx_nodes = [], nx_edges = {}\<rparr>"

definition nx_add_node :: "nx_graph \<Rightarrow> string \<Rightarrow> nx_graph" where
  "nx_add_node G n = (if n \<in> set (nx_nodes G) then G else G\<lparr>nx_nodes := nx_nodes G @ [n]\<rparr>)"

fun nx_add_nodes_from :: "nx_graph \<Rightarrow> string list \<Rightarrow> nx_graph" where
  "nx_add_nodes_from G [] = G"
| "nx_add_nodes_from G (n # ns) = nx_add_nodes_from (nx_add_node G n) ns"

definition nx_add_edge :: "nx_graph \<Rightarrow> string \<Rightarrow> string \<Rightarrow> nx_graph" where
  "nx_add_edge G u v =
     (let G' = nx_add_node (nx_add_node G u) v in G'\<lparr>nx_edges := insert {u, v} (nx_edges G')\<rparr>)"

text \<open>
  \<^verbatim>\<open>G.add_edges_from(edges)\<close>: an element of length 2 is an edge; an element of length 3
  carries a dictionary of attributes as its third value, and a stored string there is
  accepted by \<^verbatim>\<open>dict.update\<close> only when it is empty; every other length is refused.
\<close>

fun nx_add_edges_from :: "nx_graph \<Rightarrow> string list list \<Rightarrow> py_error + nx_graph" where
  "nx_add_edges_from G [] = Inr G"
| "nx_add_edges_from G (e # es) =
     (case e of
        [u, v] \<Rightarrow> nx_add_edges_from (nx_add_edge G u v) es
      | [u, v, dd] \<Rightarrow> if dd = [] then nx_add_edges_from (nx_add_edge G u v) es else Inl ValueError
      | _ \<Rightarrow> Inl NetworkXError)"

definition nx_remove_node :: "nx_graph \<Rightarrow> string \<Rightarrow> nx_graph" where
  "nx_remove_node G n =
     \<lparr>nx_nodes = removeAll n (nx_nodes G), nx_edges = Set.filter (\<lambda>e. n \<notin> e) (nx_edges G)\<rparr>"

section \<open>Building a view\<close>

text \<open>
  The loop of lines 107-110 and 153-156: every node of \<^verbatim>\<open>G\<close> that
  \<^verbatim>\<open>guild.get_member(int(node))\<close> does not find is removed from the copy.
\<close>

fun remove_non_members :: "guild \<Rightarrow> string list \<Rightarrow> nx_graph \<Rightarrow> py_error + nx_graph" where
  "remove_non_members guild [] display_G = Inr display_G"
| "remove_non_members guild (node # rest) display_G =
     (case py_int node of
        None \<Rightarrow> Inl ValueError
      | Some i \<Rightarrow>
          (case get_member guild i of
             None \<Rightarrow> remove_non_members guild rest (nx_remove_node display_G node)
           | Some member \<Rightarrow> remove_non_members guild rest display_G))"

text \<open>Lines 100-110 and 146-156: the graph of the stored arrays, then the copy for display.\<close>

definition display_graph :: "guild \<Rightarrow> string list \<Rightarrow> string list list \<Rightarrow> py_error + nx_graph" where
  "display_graph guild ns es =
     (case nx_add_edges_from (nx_add_nodes_from nx_empty ns) es of
        Inl err \<Rightarrow> Inl err
      | Inr G \<Rightarrow> remove_non_members guild (nx_nodes G) G)"

text \<open>
  What the interactive renderer is given: each node with its label (the member's display
  name, the raw identifier when the member is not found) and the edges.
\<close>

record view =
  view_nodes :: "(string \<times> string) list"
  view_edges :: "string set set"

fun pyvis_nodes :: "guild \<Rightarrow> string list \<Rightarrow> py_error + (string \<times> string) list" where
  "pyvis_nodes guild [] = Inr []"
| "pyvis_nodes guild (node # rest) =
     (case py_int node of
        None \<Rightarrow> Inl ValueError
      | Some i \<Rightarrow>
          (case pyvis_nodes guild rest of
             Inl err \<Rightarrow> Inl err
           | Inr ls \<Rightarrow>
               Inr ((node, (case get_member guild i of None \<Rightarrow> node
                            | Some member \<Rightarrow> display_name member)) # ls)))"

text \<open>
  What the static renderer is given: the nodes, the edges, the labels dictionary (only
  members found get a label) and the title.
\<close>

record image =
  image_nodes :: "string list"
  image_edges :: "string set set"
  image_labels :: "(string \<times> string) list"
  image_title :: string

fun labels_of :: "guild \<Rightarrow> string list \<Rightarrow> py_error + (string \<times> string) list" where
  "labels_of guild [] = Inr []"
| "labels_of guild (node # rest) =
     (case py_int node of
        None \<Rightarrow> Inl ValueError
      | Some i \<Rightarrow>
          (case labels_of guild rest of
             Inl err \<Rightarrow> Inl err
           | Inr ls \<Rightarrow>
               Inr (case get_member guild i of None \<Rightarrow> ls
                    | Some member \<Rightarrow> (node, display_name member) # ls)))"

text \<open>
  What a command sends to the channel, named after the outcome it reports:
  \<^item> \<open>NotInServer\<close>: "This command must be run within a server." (or "can only be used in
    a server");
  \<^item> \<open>NotConfigured\<close>: "The tracking channel has not been set up yet. ...";
  \<^item> \<open>WrongChannel\<close>: "This command can only be used in the designated tracking channel.";
  \<^item> \<open>MissingPermissions\<close>: "You do not have permission to use this command. ...";
  \<^item> \<open>InvalidRequest\<close>: "Error: You must mention at least two users to create connections."
    (or "exactly two users to delete a connection.");
  \<^item> \<open>AlreadyConnected\<close>: "These users are already connected.";
  \<^item> \<open>ConnectionsAdded\<close>: "New connections added between the mentioned users.";
  \<^item> \<open>ConnectionDeleted\<close>: "Connection between ... and ... has been deleted.";
  \<^item> \<open>ConnectionNotFound\<close>: "No connection between the mentioned users was found.";
  \<^item> \<open>NoData\<close>: "No graph data available for this server yet!" (or without "yet");
  \<^item> \<open>GraphLink url\<close>: "Here is your interactive graph: url" (or "updated interactive");
  \<^item> \<open>UploadFailed\<close>: "Failed to upload the graph to S3.";
  \<^item> \<open>GraphImage img\<close>: the file \<^verbatim>\<open>graph.png\<close> drawn from \<open>img\<close>;
  \<^item> \<open>ConfirmPrompt\<close>: "Are you sure you want to clear the graph data? Type `yes` to
    confirm. (This will timeout in 30 seconds)";
  \<^item> \<open>ConfirmationTimeout\<close>: "Confirmation timed out. Graph data was not cleared.";
  \<^item> \<open>ConfirmationDeclined\<close>: "Graph data clearing cancelled.";
  \<^item> \<open>GraphCleared\<close>: "Graph data cleared.";
  \<^item> \<open>NothingToClear\<close>: "No graph data to clear.".
\<close>

datatype reply =
    NotInServer
  | NotConfigured
  | WrongChannel
  | MissingPermissions
  | InvalidRequest
  | AlreadyConnected
  | ConnectionsAdded
  | ConnectionDeleted
  | ConnectionNotFound
  | NoData
  | GraphLink string
  | UploadFailed
  | GraphImage image
  | ConfirmPrompt
  | ConfirmationTimeout
  | ConfirmationDeclined
  | GraphCleared
  | NothingToClear

text \<open>
  \<^verbatim>\<open>generate_pyvis_html(guild, config)\<close>: \<open>Inr None\<close> is the \<^verbatim>\<open>return None\<close> of line 144,
  \<open>Inr (Some v)\<close> the HTML file written from the view \<open>v\<close>, \<open>Inl\<close> an exception.
\<close>

definition generate_pyvis_html :: "guild \<Rightarrow> config \<Rightarrow> db \<Rightarrow> py_error + view option" where
  "generate_pyvis_html guild config st =
     (case graphs_collection st (py_str (guild_id guild), channel_id config) of
        None \<Rightarrow> Inr None
      | Some graph_data \<Rightarrow>
          (case nodes graph_data of
             None \<Rightarrow> Inr None
           | Some ns \<Rightarrow>
               if length ns = 0 then Inr None
               else
                 (case edges graph_data of
                    None \<Rightarrow> Inl KeyError
                  | Some es \<Rightarrow>
                      (case display_graph guild ns es of
                         Inl err \<Rightarrow> Inl err
                       | Inr display_G \<Rightarrow>
                           (case pyvis_nodes guild (nx_nodes display_G) of
                              Inl err \<Rightarrow> Inl err
                            | Inr ls \<Rightarrow>
                                Inr (Some \<lparr>view_nodes = ls,
                                           view_edges = nx_edges display_G\<rparr>))))))"

text \<open>
  \<^verbatim>\<open>send_graph_image(ctx, guild, config)\<close>: \<open>Inr r\<close> is the one message it sends, \<open>Inl\<close> an
  exception raised before anything was sent. \<open>drawn\<close> is what drawing the picture (lines
  120-128, the plotting library) raises, \<open>None\<close> when the picture is produced.
\<close>

definition send_graph_image ::
  "py_error option \<Rightarrow> guild \<Rightarrow> config \<Rightarrow> db \<Rightarrow> py_error + reply" where
  "send_graph_image drawn guild config st =
     (case graphs_collection st (py_str (guild_id guild), channel_id config) of
        None \<Rightarrow> Inr NoData
      | Some graph_data \<Rightarrow>
          (case nodes graph_data of
             None \<Rightarrow> Inr NoData
           | Some ns \<Rightarrow>
               if length ns = 0 then Inr NoData
               else
                 (case edges graph_data of
                    None \<Rightarrow> Inl KeyError
                  | Some es \<Rightarrow>
                      (case display_graph guild ns es of
                         Inl err \<Rightarrow> Inl err
                       | Inr display_G \<Rightarrow>
                           (case labels_of guild (nx_nodes display_G) of
                              Inl err \<Rightarrow> Inl err
                            | Inr labels \<Rightarrow>
                                (case drawn of
                                   Some err \<Rightarrow> Inl err
                                 | None \<Rightarrow>
                                     Inr (GraphImage
                                       \<lparr>image_nodes = nx_nodes display_G,
                                        image_edges = nx_edges display_G,
                                        image_labels = labels,
                                        image_title = ''Graph for '' @ guild_name guild\<rparr>)))))))"

section \<open>The canonical edge\<close>

text \<open>
  \<^verbatim>\<open>sorted([str(member1.id), str(member2.id)])\<close>, as \<^verbatim>\<open>connect\<close> (line 278) and \<^verbatim>\<open>delete\<close>
  (line 398) both compute it. Python compares strings by code point, position by
  position, a proper prefix first: the lexicographic order of \<open>char list\<close>.
\<close>

definition canonical_edge :: "member \<Rightarrow> member \<Rightarrow> string list" where
  "canonical_edge member1 member2 = sort [py_str (uid member1), py_str (uid member2)]"

section \<open>The commands\<close>

text \<open>
  What a command leaves behind: the messages it sent, in order, the exception that ended
  it (if one did) and the database.
\<close>

record outcome =
  sent :: "reply list"
  raised :: "py_error option"
  store :: db

text \<open>
  The three checks every command starts with: run in a server, a designated channel is
  configured for it, and the command was given in that channel.
\<close>

definition resolve_scope :: "ctx \<Rightarrow> db \<Rightarrow> reply + (guild \<times> config)" where
  "resolve_scope c st =
     (case ctx_guild c of
        None \<Rightarrow> Inl NotInServer
      | Some guild \<Rightarrow>
          (case configs_collection st (py_str (guild_id guild)) of
             None \<Rightarrow> Inl NotConfigured
           | Some config \<Rightarrow>
               if Some (py_str (ctx_channel c)) \<noteq> channel_id config then Inl WrongChannel
               else Inr (guild, config)))"

text \<open>
  The tail that \<^verbatim>\<open>connect\<close>, \<^verbatim>\<open>delete\<close> and \<^verbatim>\<open>link\<close> share (lines 300-317, 410-427,
  478-494): generate the interactive graph, upload it, send the link. \<open>url\<close> is what
  \<^verbatim>\<open>upload_file_to_s3\<close> returns, \<^verbatim>\<open>None\<close> when the upload failed. \<open>said\<close> are the messages
  sent so far.
\<close>

definition send_link :: "string option \<Rightarrow> guild \<Rightarrow> config \<Rightarrow> reply list \<Rightarrow> db \<Rightarrow> outcome" where
  "send_link url guild config said st =
     (case generate_pyvis_html guild config st of
        Inl err \<Rightarrow> \<lparr>sent = said, raised = Some err, store = st\<rparr>
      | Inr None \<Rightarrow> \<lparr>sent = said @ [NoData], raised = None, store = st\<rparr>
      | Inr (Some html_file) \<Rightarrow>
          (case url of
             Some u \<Rightarrow> \<lparr>sent = said @ [GraphLink u], raised = None, store = st\<rparr>
           | None \<Rightarrow> \<lparr>sent = said @ [UploadFailed], raised = None, store = st\<rparr>))"

text \<open>The loop of lines 272-284, over the pairs still to visit.\<close>

record plan =
  new_edges :: "string list list"
  new_nodes :: "string list"
  already_connected :: "(member \<times> member) list"

text \<open>
  \<^verbatim>\<open>new_nodes\<close> is a Python set; the model keeps its elements once each, in the order they
  were added. \<^verbatim>\<open>list(new_nodes)\<close> may enumerate them in another order, which changes the
  order of the stored array only.
\<close>

definition set_add :: "'a list \<Rightarrow> 'a \<Rightarrow> 'a list" where
  "set_add s x = (if x \<in> set s then s else s @ [x])"

fun connect_loop :: "(member \<times> member) list \<Rightarrow> string list list \<Rightarrow> plan \<Rightarrow> plan" where
  "connect_loop [] existing_edges p = p"
| "connect_loop ((member1, member2) # rest) existing_edges p =
     (let edge = canonical_edge member1 member2 in
      if edge \<in> set existing_edges
      then connect_loop rest existing_edges
             (p\<lparr>already_connected := already_connected p @ [(member1, member2)]\<rparr>)
      else connect_loop rest existing_edges
             (p\<lparr>new_edges := new_edges p @ [edge],
               new_nodes := set_add (set_add (new_nodes p) (py_str (uid member1)))
                                    (py_str (uid member2))\<rparr>))"

definition empty_plan :: plan where
  "empty_plan = \<lparr>new_edges = [], new_nodes = [], already_connected = []\<rparr>"

text \<open>Lines 266-270: the stored edges, empty without a document or without the field.\<close>

definition existing_edges_of :: "db \<Rightarrow> scope \<Rightarrow> string list list" where
  "existing_edges_of st k =
     (case graphs_collection st k of None \<Rightarrow> [] | Some doc \<Rightarrow> field_or_empty (edges doc))"

definition connect :: "string option \<Rightarrow> ctx \<Rightarrow> db \<Rightarrow> outcome" where
  "connect url c st =
     (case resolve_scope c st of
        Inl r \<Rightarrow> \<lparr>sent = [r], raised = None, store = st\<rparr>
      | Inr (guild, config) \<Rightarrow>
          let members_to_connect = mentions c in
          if length members_to_connect < 2
          then \<lparr>sent = [InvalidRequest], raised = None, store = st\<rparr>
          else
            let k = (py_str (guild_id guild), channel_id config);
                p = connect_loop (combinations2 members_to_connect) (existing_edges_of st k)
                      empty_plan
            in if new_edges p = []
               then send_link url guild config [AlreadyConnected] st
               else send_link url guild config [ConnectionsAdded]
                      (st\<lparr>graphs_collection :=
                            update_one_add_to_set k (new_nodes p) (new_edges p)
                              (graphs_collection st)\<rparr>))"

definition delete :: "string option \<Rightarrow> ctx \<Rightarrow> db \<Rightarrow> outcome" where
  "delete url c st =
     (case resolve_scope c st of
        Inl r \<Rightarrow> \<lparr>sent = [r], raised = None, store = st\<rparr>
      | Inr (guild, config) \<Rightarrow>
          (case mentions c of
             [member1, member2] \<Rightarrow>
               let edge = canonical_edge member1 member2;
                   k = (py_str (guild_id guild), channel_id config);
                   (g, modified_count) = update_one_pull k edge (graphs_collection st)
               in send_link url guild config
                    [if modified_count \<noteq> 0 then ConnectionDeleted else ConnectionNotFound]
                    (st\<lparr>graphs_collection := g\<rparr>)
           | _ \<Rightarrow> \<lparr>sent = [InvalidRequest], raised = None, store = st\<rparr>))"

text \<open>
  \<^verbatim>\<open>bot.wait_for('message', check=check, timeout=t)\<close>: the first message dispatched before
  the timeout that passes the check; \<open>None\<close> is \<^verbatim>\<open>asyncio.TimeoutError\<close>. \<open>incoming\<close> are the
  messages the bot receives after the wait began, in the order of their dispatch.
\<close>

definition wait_for :: "(message \<Rightarrow> bool) \<Rightarrow> real \<Rightarrow> message list \<Rightarrow> message option" where
  "wait_for check timeout incoming = find check (filter (\<lambda>m. msg_arrival m < timeout) incoming)"

definition cleargraph :: "message list \<Rightarrow> ctx \<Rightarrow> db \<Rightarrow> outcome" where
  "cleargraph incoming c st =
     (if \<not> ctx_admin c then \<lparr>sent = [MissingPermissions], raised = None, store = st\<rparr>
      else
        (case resolve_scope c st of
           Inl r \<Rightarrow> \<lparr>sent = [r], raised = None, store = st\<rparr>
         | Inr (guild, config) \<Rightarrow>
             (case wait_for (\<lambda>m. msg_author m = ctx_author c \<and> msg_channel m = ctx_channel c)
                     30 incoming of
                None \<Rightarrow> \<lparr>sent = [ConfirmPrompt, ConfirmationTimeout], raised = None, store = st\<rparr>
              | Some confirmation \<Rightarrow>
                  if py_lower (msg_content confirmation) \<noteq> ''yes''
                  then \<lparr>sent = [ConfirmPrompt, ConfirmationDeclined], raised = None, store = st\<rparr>
                  else
                    let (g, deleted_count) =
                          delete_one (py_str (guild_id guild), channel_id config)
                            (graphs_collection st)
                    in \<lparr>sent = [ConfirmPrompt,
                                 if deleted_count \<noteq> 0 then GraphCleared else NothingToClear],
                        raised = None,
                        store = st\<lparr>graphs_collection := g\<rparr>\<rparr>)))"

definition graph :: "py_error option \<Rightarrow> ctx \<Rightarrow> db \<Rightarrow> outcome" where
  "graph drawn c st =
     (case resolve_scope c st of
        Inl r \<Rightarrow> \<lparr>sent = [r], raised = None, store = st\<rparr>
      | Inr (guild, config) \<Rightarrow>
          (case send_graph_image drawn guild config st of
             Inl err \<Rightarrow> \<lparr>sent = [], raised = Some err, store = st\<rparr>
           | Inr r \<Rightarrow> \<lparr>sent = [r], raised = None, store = st\<rparr>))"

definition link :: "string option \<Rightarrow> ctx \<Rightarrow> db \<Rightarrow> outcome" where
  "link url c st =
     (case resolve_scope c st of
        Inl r \<Rightarrow> \<lparr>sent = [r], raised = None, store = st\<rparr>
      | Inr (guild, config) \<Rightarrow> send_link url guild config [] st)"

section \<open>Notions the statements use\<close>

text \<open>The stored node array of a scope, empty without a document or without the field.\<close>

definition stored_nodes :: "db \<Rightarrow> scope \<Rightarrow> string list" where
  "stored_nodes st k =
     (case graphs_collection st k of None \<Rightarrow> [] | Some d \<Rightarrow> field_or_empty (nodes d))"

text \<open>
  A stored identifier of a user who has left: a decimal number that
  \<^verbatim>\<open>guild.get_member\<close> does not find.
\<close>

definition gone :: "guild \<Rightarrow> string \<Rightarrow> bool" where
  "gone guild node = (case py_int node of None \<Rightarrow> False | Some i \<Rightarrow> get_member guild i = None)"

text \<open>An edge from a user to the same user.\<close>

definition self_loop :: "string list \<Rightarrow> bool" where
  "self_loop e = (case e of [x, y] \<Rightarrow> x = y | _ \<Rightarrow> False)"

text \<open>Every end point of a stored edge is a stored node: in one document, in every document.\<close>

definition doc_closed :: "graph_doc \<Rightarrow> bool" where
  "doc_closed d \<longleftrightarrow>
     (\<forall>e \<in> set (field_or_empty (edges d)). set e \<subseteq> set (field_or_empty (nodes d)))"

definition store_closed :: "db \<Rightarrow> bool" where
  "store_closed st \<longleftrightarrow> (\<forall>k d. graphs_collection st k = Some d \<longrightarrow> doc_closed d)"

section \<open>Example data\<close>

text \<open>
  A server with three members whose designated channel is channel 5. The identifiers are
  chosen so that the order of the strings differs from the order of the numbers:
  \<^verbatim>\<open>"11" < "2" < "30"\<close>.
\<close>

definition alice :: member where
  "alice = \<lparr>uid = 11, display_name = ''alice''\<rparr>"

definition bob :: member where
  "bob = \<lparr>uid = 2, display_name = ''bob''\<rparr>"

definition carol :: member where
  "carol = \<lparr>uid = 30, display_name = ''carol''\<rparr>"

definition home :: guild where
  "home = \<lparr>guild_id = 7, guild_name = ''home'', guild_members = [alice, bob, carol]\<rparr>"

text \<open>The same server after all three have left it.\<close>

definition deserted :: guild where
  "deserted = \<lparr>guild_id = 7, guild_name = ''home'', guild_members = []\<rparr>"

definition home_config :: config where
  "home_config = \<lparr>channel_id = Some ''5''\<rparr>"

definition home_scope :: scope where
  "home_scope = (''7'', Some ''5'')"

text \<open>The database before any connection, and with the edges alice-bob and bob-carol.\<close>

definition fresh_db :: db where
  "fresh_db = \<lparr>configs_collection = [''7'' \<mapsto> home_config], graphs_collection = Map.empty\<rparr>"

definition pair_doc :: graph_doc where
  "pair_doc = \<lparr>nodes = Some [''11'', ''2'', ''30''], edges = Some [[''11'', ''2''], [''2'', ''30'']]\<rparr>"

definition pair_db :: db where
  "pair_db = \<lparr>configs_collection = [''7'' \<mapsto> home_config],
              graphs_collection = [home_scope \<mapsto> pair_doc]\<rparr>"

text \<open>A command given by alice, an administrator, in channel 5 with the given mentions.\<close>

definition request :: "member list \<Rightarrow> ctx" where
  "request ms = \<lparr>ctx_guild = Some home, ctx_channel = 5, ctx_author = 11, ctx_admin = True,
                 mentions = ms\<rparr>"

definition posting :: "nat \<Rightarrow> nat \<Rightarrow> string \<Rightarrow> real \<Rightarrow> message" where
  "posting who chan content secs =
     \<lparr>msg_author = who, msg_channel = chan, msg_content = content, msg_arrival = secs\<rparr>"

section \<open>Facts about the Python values\<close>

lemma digit_val_digit_char: "d < 10 \<Longrightarrow> digit_val (digit_char d) = Some d"
  unfolding digit_val_def digit_char_def less_eq_char_def
  by (simp add: of_char_of take_bit_nat_eq_self)

lemma py_int_from_append:
  "py_int_from acc (xs @ ys) =
     (case py_int_from acc xs of None \<Rightarrow> None | Some a \<Rightarrow> py_int_from a ys)"
  by (induction xs arbitrary: acc) (auto split: option.splits)

lemma py_str_nonempty: "py_str n \<noteq> []"
  by (subst py_str.simps) simp

lemma py_int_from_py_str: "py_int_from 0 (py_str n) = Some n"
proof (induction n rule: py_str.induct)
  case (1 n)
  show ?case
  proof (cases "n < 10")
    case True
    then show ?thesis by (subst py_str.simps) (simp add: digit_val_digit_char)
  next
    case False
    with 1 have "py_int_from 0 (py_str (n div 10)) = Some (n div 10)" by simp
    with False show ?thesis
      by (subst py_str.simps) (simp add: py_int_from_append digit_val_digit_char)
  qed
qed

text \<open>\<^verbatim>\<open>int(str(n)) == n\<close>, so two users never share a stored identifier.\<close>

lemma py_int_py_str: "py_int (py_str n) = Some n"
  by (simp add: py_int_def py_str_nonempty py_int_from_py_str)

lemma py_str_inj: "py_str a = py_str b \<longleftrightarrow> a = b"
  by (metis py_int_py_str option.inject)

lemma char_eq_iff_nat: "(c = d) \<longleftrightarrow> (of_char c :: nat) = of_char d"
  by (metis char_of_char)

lemma lower_char_y: "lower_char c = CHR ''y'' \<longleftrightarrow> c = CHR ''y'' \<or> c = CHR ''Y''"
proof -
  have lt: "(of_char c :: nat) < 256" by simp
  show ?thesis
    unfolding lower_char_def less_eq_char_def
      char_eq_iff_nat [of _ "CHR ''y''"] char_eq_iff_nat [of _ "CHR ''Y''"]
    using lt by (auto simp: of_char_of take_bit_nat_eq_self)
qed

lemma lower_char_e: "lower_char c = CHR ''e'' \<longleftrightarrow> c = CHR ''e'' \<or> c = CHR ''E''"
proof -
  have lt: "(of_char c :: nat) < 256" by simp
  show ?thesis
    unfolding lower_char_def less_eq_char_def
      char_eq_iff_nat [of _ "CHR ''e''"] char_eq_iff_nat [of _ "CHR ''E''"]
    using lt by (auto simp: of_char_of take_bit_nat_eq_self)
qed

lemma lower_char_s: "lower_char c = CHR ''s'' \<longleftrightarrow> c = CHR ''s'' \<or> c = CHR ''S''"
proof -
  have lt: "(of_char c :: nat) < 256" by simp
  show ?thesis
    unfolding lower_char_def less_eq_char_def
      char_eq_iff_nat [of _ "CHR ''s''"] char_eq_iff_nat [of _ "CHR ''S''"]
    using lt by (auto simp: of_char_of take_bit_nat_eq_self)
qed

lemma py_lower_three:
  "py_lower s = [x, y, z] \<longleftrightarrow>
     (\<exists>a b c. s = [a, b, c] \<and> lower_char a = x \<and> lower_char b = y \<and> lower_char c = z)"
  unfolding py_lower_def by (auto simp: map_eq_Cons_conv)

lemma three_in_variants:
  "[a, b, c] \<in> {[y, e, s], [y, e, S], [y, E, s], [y, E, S],
                 [Y, e, s], [Y, e, S], [Y, E, s], [Y, E, S]}
    \<longleftrightarrow> (a = y \<or> a = Y) \<and> (b = e \<or> b = E) \<and> (c = s \<or> c = S)"
  by (simp only: insert_iff empty_iff list.inject) blast

text \<open>The contents that \<^verbatim>\<open>content.lower() == "yes"\<close> accepts.\<close>

lemma py_lower_yes:
  "py_lower s = ''yes'' \<longleftrightarrow>
     s \<in> {''yes'', ''yeS'', ''yEs'', ''yES'', ''Yes'', ''YeS'', ''YEs'', ''YES''}"
proof
  assume "py_lower s = ''yes''"
  then obtain a b c where s: "s = [a, b, c]"
    and l: "lower_char a = CHR ''y''" "lower_char b = CHR ''e''" "lower_char c = CHR ''s''"
    unfolding py_lower_three by blast
  from l show "s \<in> {''yes'', ''yeS'', ''yEs'', ''yES'', ''Yes'', ''YeS'', ''YEs'', ''YES''}"
    unfolding s three_in_variants lower_char_y lower_char_e lower_char_s by simp
next
  assume "s \<in> {''yes'', ''yeS'', ''yEs'', ''yES'', ''Yes'', ''YeS'', ''YEs'', ''YES''}"
  then consider "s = ''yes''" | "s = ''yeS''" | "s = ''yEs''" | "s = ''yES''"
    | "s = ''Yes''" | "s = ''YeS''" | "s = ''YEs''" | "s = ''YES''"
    by (simp only: insert_iff empty_iff) blast
  then show "py_lower s = ''yes''"
    by cases (simp_all add: py_lower_three lower_char_y lower_char_e lower_char_s)
qed

lemma sort_two: "sort [a, b] = (if a \<le> b then [a, b] else [b, a])"
  for a b :: "'a::linorder"
  by simp

lemma length_combinations2: "length (combinations2 xs) = length xs choose 2"
  by (induction xs) (simp_all add: numeral_2_eq_2)

lemma in_combinations2:
  "(a, b) \<in> set (combinations2 xs) \<Longrightarrow> a \<in> set xs \<and> b \<in> set xs"
  by (induction xs) auto

lemma combinations2_distinct_ends:
  "distinct (map f xs) \<Longrightarrow> (a, b) \<in> set (combinations2 xs) \<Longrightarrow> f a \<noteq> f b"
  by (induction xs) (auto dest: in_combinations2)

lemma distinct_combinations2:
  "distinct (map f xs) \<Longrightarrow> distinct (map (\<lambda>(a, b). {f a, f b}) (combinations2 xs))"
proof (induction xs)
  case Nil
  then show ?case by simp
next
  case (Cons x xs)
  have 1: "distinct (map (\<lambda>b. {f x, f b}) xs)"
    using Cons.prems by (auto simp: distinct_map inj_on_def doubleton_eq_iff)
  have 2: "distinct (map (\<lambda>(a, b). {f a, f b}) (combinations2 xs))"
    using Cons by simp
  have 3: "(\<lambda>b. {f x, f b}) ` set xs \<inter> (\<lambda>(a, b). {f a, f b}) ` set (combinations2 xs) = {}"
    using Cons.prems by (auto simp: doubleton_eq_iff dest!: in_combinations2)
  show ?case using 1 2 3 by (simp add: comp_def image_image)
qed

lemma ends_combinations2:
  "2 \<le> length xs \<Longrightarrow> (\<Union>(a, b) \<in> set (combinations2 xs). {a, b}) = set xs"
proof (induction xs)
  case Nil
  then show ?case by simp
next
  case (Cons x xs)
  show ?case
  proof (cases "2 \<le> length xs")
    case True
    with Cons.IH have "(\<Union>(a, b) \<in> set (combinations2 xs). {a, b}) = set xs" by simp
    moreover from True have "xs \<noteq> []" by auto
    ultimately show ?thesis by auto
  next
    case False
    with Cons.prems have "length xs = 1" by simp
    then obtain y where "xs = [y]" by (auto simp: length_Suc_conv)
    then show ?thesis by auto
  qed
qed

lemma distinct_map_comp: "distinct (map (\<lambda>x. g (h x)) xs) \<Longrightarrow> distinct (map h xs)"
  by (induction xs) auto

section \<open>Facts about the collections\<close>

lemma set_add_to_set: "set (add_to_set arr xs) = set arr \<union> set xs"
  by (induction arr xs rule: add_to_set.induct) auto

lemma distinct_add_to_set: "distinct arr \<Longrightarrow> distinct (add_to_set arr xs)"
  by (induction arr xs rule: add_to_set.induct) auto

lemma add_to_set_fresh:
  "distinct xs \<Longrightarrow> set xs \<inter> set arr = {} \<Longrightarrow> add_to_set arr xs = arr @ xs"
  by (induction arr xs rule: add_to_set.induct) auto

section \<open>Facts about the commands\<close>

lemma store_send_link: "store (send_link url guild config said st) = st"
  by (simp add: send_link_def split: sum.splits option.splits)

lemma sent_send_link: "\<exists>more. sent (send_link url guild config said st) = said @ more"
  by (simp add: send_link_def split: sum.splits option.splits)

lemma set_canonical_edge: "set (canonical_edge a b) = {py_str (uid a), py_str (uid b)}"
  by (auto simp: canonical_edge_def sort_two)

lemma self_loop_canonical_edge: "self_loop (canonical_edge a b) \<longleftrightarrow> uid a = uid b"
  by (auto simp: canonical_edge_def sort_two self_loop_def py_str_inj)

lemma distinct_canonical_edges:
  assumes "distinct (map uid ms)"
  shows "distinct (map (\<lambda>(a, b). canonical_edge a b) (combinations2 ms))"
proof -
  have "distinct (map (\<lambda>m. py_str (uid m)) ms)"
    using assms by (simp add: distinct_map inj_on_def py_str_inj comp_def)
  then have "distinct (map (\<lambda>(a, b). {py_str (uid a), py_str (uid b)}) (combinations2 ms))"
    by (rule distinct_combinations2)
  then have "distinct (map (\<lambda>p. set ((\<lambda>(a, b). canonical_edge a b) p)) (combinations2 ms))"
    by (simp add: set_canonical_edge case_prod_unfold)
  then show ?thesis by (rule distinct_map_comp)
qed

lemma new_edges_connect_loop:
  "new_edges (connect_loop ps ex p) =
     new_edges p @ map (\<lambda>(a, b). canonical_edge a b)
                       (filter (\<lambda>(a, b). canonical_edge a b \<notin> set ex) ps)"
  by (induction ps ex p rule: connect_loop.induct) (simp_all add: Let_def)

lemma set_set_add: "set (set_add s x) = insert x (set s)"
  by (auto simp: set_add_def)

lemma distinct_set_add: "distinct s \<Longrightarrow> distinct (set_add s x)"
  by (simp add: set_add_def)

lemma new_nodes_connect_loop:
  "set (new_nodes (connect_loop ps ex p)) =
     set (new_nodes p) \<union>
     (\<Union>(a, b) \<in> set (filter (\<lambda>(a, b). canonical_edge a b \<notin> set ex) ps).
        {py_str (uid a), py_str (uid b)})"
  by (induction ps ex p rule: connect_loop.induct) (auto simp: Let_def set_set_add)

lemma distinct_new_nodes_connect_loop:
  "distinct (new_nodes p) \<Longrightarrow> distinct (new_nodes (connect_loop ps ex p))"
  by (induction ps ex p rule: connect_loop.induct) (simp_all add: Let_def distinct_set_add)

lemma wait_for_None:
  "wait_for check t incoming = None \<longleftrightarrow>
     (\<forall>m \<in> set incoming. check m \<longrightarrow> t \<le> msg_arrival m)"
  by (fastforce simp: wait_for_def find_None_iff not_less)

lemma find_first:
  "\<forall>x \<in> set pre. \<not> P x \<Longrightarrow> P m \<Longrightarrow> find P (pre @ m # post) = Some m"
  by (induction pre) auto

lemma wait_for_first:
  assumes "\<forall>x \<in> set before. \<not> (check x \<and> msg_arrival x < t)"
    and "check m" and "msg_arrival m < t"
  shows "wait_for check t (before @ m # after) = Some m"
proof -
  have "\<forall>x \<in> set (filter (\<lambda>m. msg_arrival m < t) before). \<not> check x"
    using assms(1) by auto
  then show ?thesis
    using assms(2,3) by (simp add: wait_for_def find_first)
qed

lemma resolve_request: "resolve_scope (request ms) fresh_db = Inr (home, home_config)"
  by code_simp

lemma resolve_request_pair: "resolve_scope (request ms) pair_db = Inr (home, home_config)"
  by code_simp

lemma home_key: "(py_str (guild_id home), channel_id home_config) = home_scope"
  by code_simp

section \<open>The claims\<close>

text \<open>
  C9. For all users A and B the canonical edge of (A, B) is the canonical edge of (B, A):
  the expression that connect and delete share gives one representation to an unordered
  pair.
\<close>

theorem canonical_edge_commute: "canonical_edge a b = canonical_edge b a"
  unfolding canonical_edge_def sort_two by auto

text \<open>Both orders of alice (11) and bob (2) give the edge \<^verbatim>\<open>["11", "2"]\<close>.\<close>

theorem canonical_edge_commute_witness:
  "canonical_edge alice bob = [''11'', ''2''] \<and> canonical_edge bob alice = [''11'', ''2'']"
proof -
  have "canonical_edge alice bob = [''11'', ''2'']"
    by code_simp
  then show ?thesis
    using canonical_edge_commute [of alice bob] by simp
qed


lemma nx_add_node_nodes: "set (nx_nodes (nx_add_node G n)) = insert n (set (nx_nodes G))"
  by (auto simp: nx_add_node_def)

lemma nx_add_node_edges: "nx_edges (nx_add_node G n) = nx_edges G"
  by (simp add: nx_add_node_def)

lemma nx_add_nodes_from_nodes:
  "set (nx_nodes (nx_add_nodes_from G ns)) = set (nx_nodes G) \<union> set ns"
  by (induction ns arbitrary: G) (auto simp: nx_add_node_nodes)

lemma nx_add_nodes_from_edges: "nx_edges (nx_add_nodes_from G ns) = nx_edges G"
  by (induction ns arbitrary: G) (auto simp: nx_add_node_edges)

text \<open>Every edge of a graph has an end point, and its end points are nodes.\<close>

lemma nx_add_edge_nodes:
  "set (nx_nodes (nx_add_edge G u v)) = insert u (insert v (set (nx_nodes G)))"
  by (auto simp: nx_add_edge_def Let_def nx_add_node_nodes)

lemma nx_add_edge_edges: "nx_edges (nx_add_edge G u v) = insert {u, v} (nx_edges G)"
  by (simp add: nx_add_edge_def Let_def nx_add_node_edges)

lemma nx_add_edges_from_pairs:
  assumes "\<forall>e \<in> set es. length e = 2"
    and "\<forall>e \<in> nx_edges G. e \<noteq> {} \<and> e \<subseteq> set (nx_nodes G)"
  shows "\<exists>G'. nx_add_edges_from G es = Inr G' \<and>
              set (nx_nodes G') = set (nx_nodes G) \<union> \<Union> (set ` set es) \<and>
              (\<forall>e \<in> nx_edges G'. e \<noteq> {} \<and> e \<subseteq> set (nx_nodes G'))"
  using assms
proof (induction es arbitrary: G)
  case Nil
  then show ?case by simp
next
  case (Cons e es)
  from Cons.prems(1) have "length e = 2" by simp
  then obtain u v where e: "e = [u, v]"
    by (cases e; cases "tl e") auto
  let ?G = "nx_add_edge G u v"
  have inv: "\<forall>e \<in> nx_edges ?G. e \<noteq> {} \<and> e \<subseteq> set (nx_nodes ?G)"
    using Cons.prems(2) by (auto simp: nx_add_edge_nodes nx_add_edge_edges)
  from Cons.prems(1) have "\<forall>e \<in> set es. length e = 2" by simp
  from Cons.IH [OF this inv] obtain G' where
    G': "nx_add_edges_from ?G es = Inr G'"
      "set (nx_nodes G') = set (nx_nodes ?G) \<union> \<Union> (set ` set es)"
      "\<forall>e \<in> nx_edges G'. e \<noteq> {} \<and> e \<subseteq> set (nx_nodes G')"
    by blast
  have "nx_add_edges_from G (e # es) = Inr G'"
    using G'(1) by (simp add: e)
  moreover have "set (nx_nodes G') = set (nx_nodes G) \<union> \<Union> (set ` set (e # es))"
    using G'(2) by (auto simp: e nx_add_edge_nodes)
  ultimately show ?case using G'(3) by blast
qed

lemma filter_removeAll: "filter P (removeAll n xs) = filter (\<lambda>x. x \<noteq> n \<and> P x) xs"
  by (induction xs) auto

lemma remove_non_members_gone:
  assumes "\<forall>n \<in> set xs. gone guild n"
  shows "\<exists>D'. remove_non_members guild xs D = Inr D' \<and>
              nx_nodes D' = filter (\<lambda>n. n \<notin> set xs) (nx_nodes D) \<and>
              nx_edges D' = {e \<in> nx_edges D. e \<inter> set xs = {}}"
  using assms
proof (induction xs arbitrary: D)
  case Nil
  then show ?case by simp
next
  case (Cons x xs)
  from Cons.prems have "gone guild x" by simp
  then obtain i where i: "py_int x = Some i" "get_member guild i = None"
    by (auto simp: gone_def split: option.splits)
  from Cons.prems have "\<forall>n \<in> set xs. gone guild n" by simp
  from Cons.IH [OF this, of "nx_remove_node D x"] obtain D' where
    D': "remove_non_members guild xs (nx_remove_node D x) = Inr D'"
      "nx_nodes D' = filter (\<lambda>n. n \<notin> set xs) (nx_nodes (nx_remove_node D x))"
      "nx_edges D' = {e \<in> nx_edges (nx_remove_node D x). e \<inter> set xs = {}}"
    by blast
  have "remove_non_members guild (x # xs) D = Inr D'"
    using i D'(1) by simp
  moreover have "nx_nodes D' = filter (\<lambda>n. n \<notin> set (x # xs)) (nx_nodes D)"
    using D'(2) by (simp add: nx_remove_node_def filter_removeAll)
  moreover have "nx_edges D' = {e \<in> nx_edges D. e \<inter> set (x # xs) = {}}"
    using D'(3) by (auto simp: nx_remove_node_def)
  ultimately show ?case by blast
qed

text \<open>
  When every stored node and every end point of a stored edge belongs to a user who has
  left, nothing is left of the graph after the removal loop.
\<close>

lemma display_graph_all_gone:
  assumes "\<forall>n \<in> set ns. gone guild n"
    and "\<forall>e \<in> set es. length e = 2 \<and> (\<forall>n \<in> set e. gone guild n)"
  shows "display_graph guild ns es = Inr \<lparr>nx_nodes = [], nx_edges = {}\<rparr>"
proof -
  let ?G0 = "nx_add_nodes_from nx_empty ns"
  have "\<forall>e \<in> nx_edges ?G0. e \<noteq> {} \<and> e \<subseteq> set (nx_nodes ?G0)"
    by (simp add: nx_add_nodes_from_edges nx_empty_def)
  with assms(2) obtain G where
    G: "nx_add_edges_from ?G0 es = Inr G"
      "set (nx_nodes G) = set (nx_nodes ?G0) \<union> \<Union> (set ` set es)"
      "\<forall>e \<in> nx_edges G. e \<noteq> {} \<and> e \<subseteq> set (nx_nodes G)"
    using nx_add_edges_from_pairs [of es ?G0] by blast
  have "set (nx_nodes G) = set ns \<union> \<Union> (set ` set es)"
    using G(2) by (simp add: nx_add_nodes_from_nodes nx_empty_def)
  with assms have "\<forall>n \<in> set (nx_nodes G). gone guild n"
    by auto
  from remove_non_members_gone [OF this, of G] obtain D where
    D: "remove_non_members guild (nx_nodes G) G = Inr D"
      "nx_nodes D = filter (\<lambda>n. n \<notin> set (nx_nodes G)) (nx_nodes G)"
      "nx_edges D = {e \<in> nx_edges G. e \<inter> set (nx_nodes G) = {}}"
    by blast
  have "nx_nodes D = []"
    using D(2) by simp
  moreover have "nx_edges D = {}"
    using D(3) G(3) by auto
  ultimately have "D = \<lparr>nx_nodes = [], nx_edges = {}\<rparr>"
    by (cases D) simp
  with G(1) D(1) show ?thesis
    by (simp add: display_graph_def)
qed

text \<open>
  C1 (as the program has it). The static image and the interactive link report NoData
  exactly when the scope has no document or its stored node array is missing or empty: the
  test is made on the stored array, before the users who left are filtered out. When the
  stored node array is not empty, every stored edge has two end points, and every stored
  node and end point is the decimal identifier of a user who is no longer a member, the
  interactive link is built from a view without nodes and edges, and the static image is
  drawn from a graph without nodes, edges and labels and sent, unless drawing raises.
\<close>

theorem view_no_data_iff:
  "(generate_pyvis_html guild config st = Inr None \<longleftrightarrow>
      stored_nodes st (py_str (guild_id guild), channel_id config) = []) \<and>
   (send_graph_image drawn guild config st = Inr NoData \<longleftrightarrow>
      stored_nodes st (py_str (guild_id guild), channel_id config) = []) \<and>
   (\<forall>d ns es.
      graphs_collection st (py_str (guild_id guild), channel_id config) = Some d \<and>
      nodes d = Some ns \<and> ns \<noteq> [] \<and> edges d = Some es \<and>
      (\<forall>n \<in> set ns. gone guild n) \<and>
      (\<forall>e \<in> set es. length e = 2 \<and> (\<forall>n \<in> set e. gone guild n))
      \<longrightarrow> generate_pyvis_html guild config st
            = Inr (Some \<lparr>view_nodes = [], view_edges = {}\<rparr>) \<and>
          send_graph_image drawn guild config st
            = (case drawn of
                 Some err \<Rightarrow> Inl err
               | None \<Rightarrow>
                   Inr (GraphImage \<lparr>image_nodes = [], image_edges = {}, image_labels = [],
                                    image_title = ''Graph for '' @ guild_name guild\<rparr>)))"
proof (intro conjI allI impI)
  show "generate_pyvis_html guild config st = Inr None \<longleftrightarrow>
      stored_nodes st (py_str (guild_id guild), channel_id config) = []"
    by (simp add: generate_pyvis_html_def stored_nodes_def field_or_empty_def
          split: option.splits sum.splits)
next
  show "send_graph_image drawn guild config st = Inr NoData \<longleftrightarrow>
      stored_nodes st (py_str (guild_id guild), channel_id config) = []"
    by (simp add: send_graph_image_def stored_nodes_def field_or_empty_def
          split: option.splits sum.splits)
next
  fix d ns es
  assume a: "graphs_collection st (py_str (guild_id guild), channel_id config) = Some d \<and>
      nodes d = Some ns \<and> ns \<noteq> [] \<and> edges d = Some es \<and>
      (\<forall>n \<in> set ns. gone guild n) \<and>
      (\<forall>e \<in> set es. length e = 2 \<and> (\<forall>n \<in> set e. gone guild n))"
  then have g: "display_graph guild ns es = Inr \<lparr>nx_nodes = [], nx_edges = {}\<rparr>"
    by (intro display_graph_all_gone) simp_all
  from a g show "generate_pyvis_html guild config st
            = Inr (Some \<lparr>view_nodes = [], view_edges = {}\<rparr>)"
    by (simp add: generate_pyvis_html_def)
  from a g show "send_graph_image drawn guild config st
            = (case drawn of
                 Some err \<Rightarrow> Inl err
               | None \<Rightarrow>
                   Inr (GraphImage \<lparr>image_nodes = [], image_edges = {}, image_labels = [],
                                    image_title = ''Graph for '' @ guild_name guild\<rparr>))"
    by (cases drawn) (simp_all add: send_graph_image_def)
qed

text \<open>
  On the example: the empty database gives NoData; the stored graph of three users, all of
  whom have left the server, gives a view and a picture of nothing.
\<close>

theorem view_no_data_iff_witness:
  "stored_nodes fresh_db (py_str (guild_id home), channel_id home_config) = [] \<and>
   generate_pyvis_html home home_config fresh_db = Inr None \<and>
   send_graph_image None home home_config fresh_db = Inr NoData \<and>
   graphs_collection pair_db (py_str (guild_id deserted), channel_id home_config)
     = Some pair_doc \<and>
   nodes pair_doc = Some [''11'', ''2'', ''30''] \<and>
   edges pair_doc = Some [[''11'', ''2''], [''2'', ''30'']] \<and>
   gone deserted ''11'' \<and> gone deserted ''2'' \<and> gone deserted ''30'' \<and>
   generate_pyvis_html deserted home_config pair_db
     = Inr (Some \<lparr>view_nodes = [], view_edges = {}\<rparr>) \<and>
   send_graph_image None deserted home_config pair_db
     = Inr (GraphImage \<lparr>image_nodes = [], image_edges = {}, image_labels = [],
                         image_title = ''Graph for '' @ guild_name deserted\<rparr>)"
proof -
  have h: "stored_nodes fresh_db (py_str (guild_id home), channel_id home_config) = []"
    by code_simp
  have d: "graphs_collection pair_db (py_str (guild_id deserted), channel_id home_config)
             = Some pair_doc"
    by code_simp
  have n: "nodes pair_doc = Some [''11'', ''2'', ''30'']"
    and e: "edges pair_doc = Some [[''11'', ''2''], [''2'', ''30'']]"
    by (simp_all add: pair_doc_def)
  have g: "gone deserted ''11''" "gone deserted ''2''" "gone deserted ''30''"
    by code_simp+
  have all: "graphs_collection pair_db (py_str (guild_id deserted), channel_id home_config)
               = Some pair_doc \<and>
      nodes pair_doc = Some [''11'', ''2'', ''30''] \<and> [''11'', ''2'', ''30''] \<noteq> [] \<and>
      edges pair_doc = Some [[''11'', ''2''], [''2'', ''30'']] \<and>
      (\<forall>n \<in> set [''11'', ''2'', ''30'']. gone deserted n) \<and>
      (\<forall>e \<in> set [[''11'', ''2''], [''2'', ''30'']].
          length e = 2 \<and> (\<forall>n \<in> set e. gone deserted n))"
    using d n e g by simp
  have r: "generate_pyvis_html deserted home_config pair_db
             = Inr (Some \<lparr>view_nodes = [], view_edges = {}\<rparr>) \<and>
           send_graph_image None deserted home_config pair_db
             = Inr (GraphImage \<lparr>image_nodes = [], image_edges = {}, image_labels = [],
                                 image_title = ''Graph for '' @ guild_name deserted\<rparr>)"
    using all view_no_data_iff [of deserted home_config pair_db None] by force
  show ?thesis
    using h d n e g r view_no_data_iff [of home home_config fresh_db None] by simp
qed

text \<open>
  C1 as stated fails: the stored graph of the example has three nodes, none of them is a
  member of the deserted server, the graph left after filtering has no node, and both
  operations render it instead of reporting NoData.
\<close>

theorem view_no_data_counterexample:
  "display_graph deserted [''11'', ''2'', ''30''] [[''11'', ''2''], [''2'', ''30'']]
     = Inr \<lparr>nx_nodes = [], nx_edges = {}\<rparr> \<and>
   generate_pyvis_html deserted home_config pair_db
     = Inr (Some \<lparr>view_nodes = [], view_edges = {}\<rparr>) \<and>
   send_graph_image None deserted home_config pair_db
     = Inr (GraphImage \<lparr>image_nodes = [], image_edges = {}, image_labels = [],
                         image_title = ''Graph for home''\<rparr>)"
  by code_simp

text \<open>
  C3 (as the program has it). In a resolved scope, connect answers InvalidRequest and
  leaves the database alone whenever the mentions list has fewer than two entries.
\<close>

theorem connect_too_few_mentions:
  assumes "resolve_scope c st = Inr (guild, config)"
    and "length (mentions c) < 2"
  shows "connect url c st = \<lparr>sent = [InvalidRequest], raised = None, store = st\<rparr>"
  using assms by (simp add: connect_def)

theorem connect_too_few_mentions_witness:
  "resolve_scope (request [alice]) fresh_db = Inr (home, home_config) \<and>
   length (mentions (request [alice])) < 2 \<and>
   connect None (request [alice]) fresh_db
     = \<lparr>sent = [InvalidRequest], raised = None, store = fresh_db\<rparr>"
proof -
  have h1: "resolve_scope (request [alice]) fresh_db = Inr (home, home_config)"
    by (rule resolve_request)
  have h2: "length (mentions (request [alice])) < 2"
    by (simp add: request_def)
  show ?thesis
    using h1 h2 connect_too_few_mentions [OF h1 h2, of None] by simp
qed

text \<open>
  C3 as stated fails: a mentions list that names alice twice holds one distinct user, yet
  connect does not answer InvalidRequest; it stores the edge from alice to alice.
\<close>

theorem connect_too_few_distinct_counterexample:
  "card (uid ` set (mentions (request [alice, alice]))) = 1 \<and>
   graphs_collection fresh_db home_scope = None \<and>
   sent (connect (Some ''url'') (request [alice, alice]) fresh_db)
     = [ConnectionsAdded, GraphLink ''url''] \<and>
   graphs_collection (store (connect (Some ''url'') (request [alice, alice]) fresh_db)) home_scope
     = Some \<lparr>nodes = Some [''11''], edges = Some [[''11'', ''11'']]\<rparr>"
  by code_simp

text \<open>
  C5. When the canonical edge of every pair of mentioned users is already stored (for two
  mentions: when their edge is stored), connect reports that they are already connected
  and the database afterwards is the database before.
\<close>

theorem connect_already_connected:
  assumes "resolve_scope c st = Inr (guild, config)"
    and "2 \<le> length (mentions c)"
    and "\<forall>(a, b) \<in> set (combinations2 (mentions c)).
           canonical_edge a b
             \<in> set (existing_edges_of st (py_str (guild_id guild), channel_id config))"
  shows "store (connect url c st) = st \<and>
         (\<exists>more. sent (connect url c st) = AlreadyConnected # more)"
proof -
  let ?k = "(py_str (guild_id guild), channel_id config)"
  let ?p = "connect_loop (combinations2 (mentions c)) (existing_edges_of st ?k) empty_plan"
  have "filter (\<lambda>(a, b). canonical_edge a b \<notin> set (existing_edges_of st ?k))
          (combinations2 (mentions c)) = []"
    using assms(3) by (auto simp: filter_empty_conv)
  then have "new_edges ?p = []"
    by (simp add: new_edges_connect_loop empty_plan_def)
  with assms(1,2) have "connect url c st = send_link url guild config [AlreadyConnected] st"
    by (simp add: connect_def Let_def)
  then show ?thesis
    using sent_send_link [of url guild config "[AlreadyConnected]" st]
    by (simp add: store_send_link)
qed

theorem connect_already_connected_witness:
  "resolve_scope (request [bob, alice]) pair_db = Inr (home, home_config) \<and>
   2 \<le> length (mentions (request [bob, alice])) \<and>
   canonical_edge bob alice \<in> set (existing_edges_of pair_db home_scope) \<and>
   store (connect None (request [bob, alice]) pair_db) = pair_db \<and>
   (\<exists>more. sent (connect None (request [bob, alice]) pair_db) = AlreadyConnected # more)"
proof -
  have h1: "resolve_scope (request [bob, alice]) pair_db = Inr (home, home_config)"
    by (rule resolve_request_pair)
  have h2: "2 \<le> length (mentions (request [bob, alice]))"
    by (simp add: request_def)
  have e: "canonical_edge bob alice \<in> set (existing_edges_of pair_db home_scope)"
    by code_simp
  have h3: "\<forall>(a, b) \<in> set (combinations2 (mentions (request [bob, alice]))).
      canonical_edge a b
        \<in> set (existing_edges_of pair_db (py_str (guild_id home), channel_id home_config))"
    using e by (simp add: request_def home_key)
  show ?thesis
    using h1 h2 e connect_already_connected [OF h1 h2 h3, of None] by simp
qed

text \<open>
  C6. For two mentioned users whose canonical edge is stored, delete removes that edge
  from the stored array, keeps every other edge, the node array and every other document,
  and reports the deletion; when the edge is not stored, delete reports that no connection
  was found and the database afterwards is the database before.
\<close>

theorem delete_edge_frame:
  assumes "resolve_scope c st = Inr (guild, config)"
    and "mentions c = [a, b]"
    and "k = (py_str (guild_id guild), channel_id config)"
    and "e = canonical_edge a b"
  shows "if e \<in> set (existing_edges_of st k)
         then (\<exists>d d' more.
                 graphs_collection st k = Some d \<and>
                 store (delete url c st)
                   = st\<lparr>graphs_collection := (graphs_collection st)(k \<mapsto> d')\<rparr> \<and>
                 nodes d' = nodes d \<and>
                 field_or_empty (edges d') = removeAll e (field_or_empty (edges d)) \<and>
                 set (field_or_empty (edges d')) = set (field_or_empty (edges d)) - {e} \<and>
                 sent (delete url c st) = ConnectionDeleted # more)
         else store (delete url c st) = st \<and>
              (\<exists>more. sent (delete url c st) = ConnectionNotFound # more)"
proof (cases "e \<in> set (existing_edges_of st k)")
  case True
  then have "\<exists>d es. graphs_collection st k = Some d \<and> edges d = Some es \<and> e \<in> set es"
    by (cases "graphs_collection st k"; cases "edges (the (graphs_collection st k))")
       (simp_all add: existing_edges_of_def field_or_empty_def)
  then obtain d es where d: "graphs_collection st k = Some d" "edges d = Some es" "e \<in> set es"
    by blast
  let ?d' = "d\<lparr>edges := Some (removeAll e es)\<rparr>"
  have rm: "filter (\<lambda>x. x \<noteq> e) es = removeAll e es"
    by (induction es) auto
  from d have p: "update_one_pull k e (graphs_collection st) =
      ((graphs_collection st)(k \<mapsto> ?d'), 1)"
    by (simp add: update_one_pull_def rm)
  have run: "delete url c st = send_link url guild config [ConnectionDeleted]
          (st\<lparr>graphs_collection := (graphs_collection st)(k \<mapsto> ?d')\<rparr>)"
    using assms p by (simp add: delete_def)
  obtain more where more: "sent (delete url c st) = ConnectionDeleted # more"
    using sent_send_link [of url guild config "[ConnectionDeleted]"] run by auto
  have "graphs_collection st k = Some d \<and>
        store (delete url c st) = st\<lparr>graphs_collection := (graphs_collection st)(k \<mapsto> ?d')\<rparr> \<and>
        nodes ?d' = nodes d \<and>
        field_or_empty (edges ?d') = removeAll e (field_or_empty (edges d)) \<and>
        set (field_or_empty (edges ?d')) = set (field_or_empty (edges d)) - {e} \<and>
        sent (delete url c st) = ConnectionDeleted # more"
    using d more by (simp add: run store_send_link field_or_empty_def)
  then have "\<exists>d d' more.
                 graphs_collection st k = Some d \<and>
                 store (delete url c st)
                   = st\<lparr>graphs_collection := (graphs_collection st)(k \<mapsto> d')\<rparr> \<and>
                 nodes d' = nodes d \<and>
                 field_or_empty (edges d') = removeAll e (field_or_empty (edges d)) \<and>
                 set (field_or_empty (edges d')) = set (field_or_empty (edges d)) - {e} \<and>
                 sent (delete url c st) = ConnectionDeleted # more"
    by blast
  with True show ?thesis by simp
next
  case False
  then have p: "update_one_pull k e (graphs_collection st) = (graphs_collection st, 0)"
    by (auto simp: update_one_pull_def existing_edges_of_def field_or_empty_def
             split: option.splits)
  have "delete url c st = send_link url guild config [ConnectionNotFound] st"
    using assms p by (simp add: delete_def)
  with False show ?thesis
    using sent_send_link [of url guild config "[ConnectionNotFound]" st]
    by (simp add: store_send_link)
qed

text \<open>
  On the example: deleting bob-alice removes \<^verbatim>\<open>["11", "2"]\<close> and keeps \<^verbatim>\<open>["2", "30"]\<close> and the
  three nodes; deleting alice-carol, who are not connected, changes nothing.
\<close>

theorem delete_edge_frame_witness:
  "resolve_scope (request [bob, alice]) pair_db = Inr (home, home_config) \<and>
   mentions (request [bob, alice]) = [bob, alice] \<and>
   home_scope = (py_str (guild_id home), channel_id home_config) \<and>
   [''11'', ''2''] = canonical_edge bob alice \<and>
   [''11'', ''2''] \<in> set (existing_edges_of pair_db home_scope) \<and>
   (\<exists>d d' more.
      graphs_collection pair_db home_scope = Some d \<and>
      store (delete None (request [bob, alice]) pair_db)
        = pair_db\<lparr>graphs_collection := (graphs_collection pair_db)(home_scope \<mapsto> d')\<rparr> \<and>
      nodes d' = nodes d \<and>
      field_or_empty (edges d') = removeAll [''11'', ''2''] (field_or_empty (edges d)) \<and>
      set (field_or_empty (edges d')) = set (field_or_empty (edges d)) - {[''11'', ''2'']} \<and>
      sent (delete None (request [bob, alice]) pair_db) = ConnectionDeleted # more) \<and>
   [''11'', ''30''] = canonical_edge alice carol \<and>
   [''11'', ''30''] \<notin> set (existing_edges_of pair_db home_scope) \<and>
   store (delete None (request [alice, carol]) pair_db) = pair_db \<and>
   (\<exists>more. sent (delete None (request [alice, carol]) pair_db) = ConnectionNotFound # more)"
proof -
  have h1: "resolve_scope (request [bob, alice]) pair_db = Inr (home, home_config)"
    by (rule resolve_request_pair)
  have h2: "mentions (request [bob, alice]) = [bob, alice]"
    by (simp add: request_def)
  have h3: "home_scope = (py_str (guild_id home), channel_id home_config)"
    by (simp add: home_key)
  have h4: "[''11'', ''2''] = canonical_edge bob alice"
    by code_simp
  have h5: "[''11'', ''2''] \<in> set (existing_edges_of pair_db home_scope)"
    by code_simp
  have g1: "resolve_scope (request [alice, carol]) pair_db = Inr (home, home_config)"
    by (rule resolve_request_pair)
  have g2: "mentions (request [alice, carol]) = [alice, carol]"
    by (simp add: request_def)
  have g4: "[''11'', ''30''] = canonical_edge alice carol"
    by code_simp
  have g5: "[''11'', ''30''] \<notin> set (existing_edges_of pair_db home_scope)"
    by code_simp
  show ?thesis
    using h1 h2 h3 h4 h5 g4 g5 delete_edge_frame [OF h1 h2 h3 h4, of None]
      delete_edge_frame [OF g1 g2 h3 g4, of None]
    by simp
qed


text \<open>
  C7. When no message of the requester in the channel is dispatched before the 30 seconds
  are over, or when the reply that was waited for is not "yes", cleargraph leaves the
  database as it was; the database changes only when the reply, in lower case, is "yes".
\<close>

theorem cleargraph_abort:
  "((\<forall>m \<in> set incoming. msg_author m = ctx_author c \<and> msg_channel m = ctx_channel c
                           \<longrightarrow> 30 \<le> msg_arrival m)
      \<longrightarrow> store (cleargraph incoming c st) = st) \<and>
   (\<forall>m. wait_for (\<lambda>m. msg_author m = ctx_author c \<and> msg_channel m = ctx_channel c)
            30 incoming = Some m
          \<and> py_lower (msg_content m) \<noteq> ''yes''
      \<longrightarrow> store (cleargraph incoming c st) = st) \<and>
   (store (cleargraph incoming c st) \<noteq> st
      \<longrightarrow> (\<exists>m. wait_for (\<lambda>m. msg_author m = ctx_author c \<and> msg_channel m = ctx_channel c)
                  30 incoming = Some m
               \<and> py_lower (msg_content m) = ''yes''))"
proof (intro conjI impI allI)
  assume "\<forall>m \<in> set incoming. msg_author m = ctx_author c \<and> msg_channel m = ctx_channel c
            \<longrightarrow> 30 \<le> msg_arrival m"
  then have "wait_for (\<lambda>m. msg_author m = ctx_author c \<and> msg_channel m = ctx_channel c)
               30 incoming = None"
    by (simp add: wait_for_None)
  then show "store (cleargraph incoming c st) = st"
    by (simp add: cleargraph_def split: sum.splits)
next
  fix m
  assume "wait_for (\<lambda>m. msg_author m = ctx_author c \<and> msg_channel m = ctx_channel c)
            30 incoming = Some m
          \<and> py_lower (msg_content m) \<noteq> ''yes''"
  then show "store (cleargraph incoming c st) = st"
    by (simp add: cleargraph_def split: sum.splits)
next
  assume "store (cleargraph incoming c st) \<noteq> st"
  then show "\<exists>m. wait_for (\<lambda>m. msg_author m = ctx_author c \<and> msg_channel m = ctx_channel c)
                    30 incoming = Some m
               \<and> py_lower (msg_content m) = ''yes''"
    by (auto simp: cleargraph_def split: sum.splits option.splits if_splits)
qed

text \<open>
  Three runs on the example: alice's "yes" comes after 31 seconds (timeout), alice answers
  "no" after 3 seconds (declined), alice answers "yes" after 3 seconds (cleared).
\<close>

theorem cleargraph_abort_witness:
  "30 \<le> msg_arrival (posting 11 5 ''yes'' 31) \<and>
   store (cleargraph [posting 11 5 ''yes'' 31] (request []) pair_db) = pair_db \<and>
   wait_for (\<lambda>m. msg_author m = ctx_author (request []) \<and> msg_channel m = ctx_channel (request []))
     30 [posting 11 5 ''no'' 3] = Some (posting 11 5 ''no'' 3) \<and>
   py_lower (msg_content (posting 11 5 ''no'' 3)) \<noteq> ''yes'' \<and>
   store (cleargraph [posting 11 5 ''no'' 3] (request []) pair_db) = pair_db \<and>
   store (cleargraph [posting 11 5 ''yes'' 3] (request []) pair_db) \<noteq> pair_db \<and>
   (\<exists>m. wait_for (\<lambda>m. msg_author m = ctx_author (request []) \<and> msg_channel m = ctx_channel (request []))
           30 [posting 11 5 ''yes'' 3] = Some m
         \<and> py_lower (msg_content m) = ''yes'')"
proof -
  let ?check = "\<lambda>m. msg_author m = ctx_author (request []) \<and> msg_channel m = ctx_channel (request [])"
  have h0: "30 \<le> msg_arrival (posting 11 5 ''yes'' 31)"
    by (simp add: posting_def)
  then have h1: "\<forall>m \<in> set [posting 11 5 ''yes'' 31]. ?check m \<longrightarrow> 30 \<le> msg_arrival m"
    by simp
  have h2: "wait_for ?check 30 [posting 11 5 ''no'' 3] = Some (posting 11 5 ''no'' 3)
            \<and> py_lower (msg_content (posting 11 5 ''no'' 3)) \<noteq> ''yes''"
    by (simp add: wait_for_def posting_def request_def py_lower_yes)
  have "graphs_collection (store (cleargraph [posting 11 5 ''yes'' 3] (request []) pair_db)) home_scope
          = None"
    by code_simp
  moreover have "graphs_collection pair_db home_scope = Some pair_doc"
    by (simp add: pair_db_def)
  ultimately have h3: "store (cleargraph [posting 11 5 ''yes'' 3] (request []) pair_db) \<noteq> pair_db"
    by auto
  show ?thesis
    using h0 h1 h2 h3 cleargraph_abort [of "[posting 11 5 ''yes'' 31]" "request []" pair_db]
      cleargraph_abort [of "[posting 11 5 ''no'' 3]" "request []" pair_db]
      cleargraph_abort [of "[posting 11 5 ''yes'' 3]" "request []" pair_db]
    by blast
qed

text \<open>
  C10. The reply that cleargraph consumes is the first message that the requester posts
  in the channel within the 30 seconds. When its content is "yes" in any mix of upper and
  lower case the stored graph of the scope is deleted; any other content cancels, and the
  database stays as it was.
\<close>

theorem cleargraph_first_reply:
  assumes "ctx_admin c"
    and "resolve_scope c st = Inr (guild, config)"
    and "incoming = before @ m # after"
    and "msg_author m = ctx_author c" and "msg_channel m = ctx_channel c"
    and "msg_arrival m < 30"
    and "\<forall>x \<in> set before. \<not> (msg_author x = ctx_author c \<and> msg_channel x = ctx_channel c
                                \<and> msg_arrival x < 30)"
    and "k = (py_str (guild_id guild), channel_id config)"
  shows "if msg_content m \<in> {''yes'', ''yeS'', ''yEs'', ''yES'', ''Yes'', ''YeS'', ''YEs'', ''YES''}
         then store (cleargraph incoming c st)
                = st\<lparr>graphs_collection := (graphs_collection st)(k := None)\<rparr> \<and>
              sent (cleargraph incoming c st)
                = [ConfirmPrompt,
                   if graphs_collection st k = None then NothingToClear else GraphCleared]
         else cleargraph incoming c st
                = \<lparr>sent = [ConfirmPrompt, ConfirmationDeclined], raised = None, store = st\<rparr>"
proof -
  have w: "wait_for (\<lambda>m. msg_author m = ctx_author c \<and> msg_channel m = ctx_channel c)
             30 incoming = Some m"
    unfolding assms(3) using assms(4-7) by (intro wait_for_first) auto
  have del: "delete_one k (graphs_collection st) =
      ((graphs_collection st)(k := None), if graphs_collection st k = None then 0 else 1)"
    by (auto simp: delete_one_def split: option.splits)
  show ?thesis
    using assms(1,2,8) w del py_lower_yes [of "msg_content m"]
    by (cases "py_lower (msg_content m) = ''yes''") (simp_all add: cleargraph_def)
qed

text \<open>
  On the example: bob writes "yes" first, alice writes "yes" in another channel, then
  alice answers "YeS" in channel 5, which clears the graph; her later "no" is not read.
\<close>

theorem cleargraph_first_reply_witness:
  "ctx_admin (request []) \<and>
   resolve_scope (request []) pair_db = Inr (home, home_config) \<and>
   msg_author (posting 11 5 ''YeS'' 12) = ctx_author (request []) \<and>
   msg_channel (posting 11 5 ''YeS'' 12) = ctx_channel (request []) \<and>
   msg_arrival (posting 11 5 ''YeS'' 12) < 30 \<and>
   msg_author (posting 2 5 ''yes'' 1) \<noteq> ctx_author (request []) \<and>
   msg_channel (posting 11 6 ''yes'' 2) \<noteq> ctx_channel (request []) \<and>
   store (cleargraph ([posting 2 5 ''yes'' 1, posting 11 6 ''yes'' 2]
                       @ posting 11 5 ''YeS'' 12 # [posting 11 5 ''no'' 13])
            (request []) pair_db)
     = pair_db\<lparr>graphs_collection := (graphs_collection pair_db)(home_scope := None)\<rparr> \<and>
   sent (cleargraph ([posting 2 5 ''yes'' 1, posting 11 6 ''yes'' 2]
                       @ posting 11 5 ''YeS'' 12 # [posting 11 5 ''no'' 13])
            (request []) pair_db)
     = [ConfirmPrompt, GraphCleared]"
proof -
  have h1: "ctx_admin (request [])"
    by (simp add: request_def)
  have h2: "resolve_scope (request []) pair_db = Inr (home, home_config)"
    by (rule resolve_request_pair)
  have h4: "msg_author (posting 11 5 ''YeS'' 12) = ctx_author (request [])"
    and h5: "msg_channel (posting 11 5 ''YeS'' 12) = ctx_channel (request [])"
    and h6: "msg_arrival (posting 11 5 ''YeS'' 12) < 30"
    by (simp_all add: posting_def request_def)
  have e1: "msg_author (posting 2 5 ''yes'' 1) \<noteq> ctx_author (request [])"
    and e2: "msg_channel (posting 11 6 ''yes'' 2) \<noteq> ctx_channel (request [])"
    by (simp_all add: posting_def request_def)
  then have h7: "\<forall>x \<in> set [posting 2 5 ''yes'' 1, posting 11 6 ''yes'' 2].
       \<not> (msg_author x = ctx_author (request []) \<and> msg_channel x = ctx_channel (request [])
          \<and> msg_arrival x < 30)"
    by simp
  have h8: "home_scope = (py_str (guild_id home), channel_id home_config)"
    by (simp add: home_key)
  have y: "msg_content (posting 11 5 ''YeS'' 12)
             \<in> {''yes'', ''yeS'', ''yEs'', ''yES'', ''Yes'', ''YeS'', ''YEs'', ''YES''}"
    by (simp add: posting_def)
  have s: "graphs_collection pair_db home_scope \<noteq> None"
    by (simp add: pair_db_def)
  show ?thesis
    using h1 h2 h4 h5 h6 e1 e2 y s cleargraph_first_reply [OF h1 h2 refl h4 h5 h6 h7 h8]
    by simp
qed


lemma plan_closed_connect_loop:
  "\<forall>e \<in> set (new_edges p). set e \<subseteq> set (new_nodes p) \<Longrightarrow>
   \<forall>e \<in> set (new_edges (connect_loop ps ex p)). set e \<subseteq> set (new_nodes (connect_loop ps ex p))"
proof (induction ps ex p rule: connect_loop.induct)
  case (1 ex p)
  then show ?case by simp
next
  case (2 member1 member2 rest ex p)
  show ?case
  proof (cases "canonical_edge member1 member2 \<in> set ex")
    case True
    with 2 show ?thesis by (simp add: Let_def)
  next
    case False
    let ?p' = "p\<lparr>new_edges := new_edges p @ [canonical_edge member1 member2],
                  new_nodes := set_add (set_add (new_nodes p) (py_str (uid member1)))
                                       (py_str (uid member2))\<rparr>"
    have "\<forall>e \<in> set (new_edges ?p'). set e \<subseteq> set (new_nodes ?p')"
      using "2.prems" by (auto simp: set_set_add set_canonical_edge)
    with 2 False show ?thesis by (simp add: Let_def)
  qed
qed

lemma field_or_empty_simps:
  "field_or_empty None = []" "field_or_empty (Some xs) = xs"
  by (simp_all add: field_or_empty_def)

lemma doc_closed_add:
  assumes "doc_closed d" and "\<forall>e \<in> set es. set e \<subseteq> set ns"
  shows "doc_closed (d\<lparr>nodes := Some (add_to_set (field_or_empty (nodes d)) ns),
                       edges := Some (add_to_set (field_or_empty (edges d)) es)\<rparr>)"
  using assms by (auto simp: doc_closed_def set_add_to_set field_or_empty_simps)

lemma doc_closed_new:
  assumes "\<forall>e \<in> set es. set e \<subseteq> set ns"
  shows "doc_closed \<lparr>nodes = Some (add_to_set [] ns), edges = Some (add_to_set [] es)\<rparr>"
  using assms by (auto simp: doc_closed_def set_add_to_set field_or_empty_simps)

lemma doc_closed_pull:
  assumes "doc_closed d" and "edges d = Some es"
  shows "doc_closed (d\<lparr>edges := Some (filter P es)\<rparr>)"
  using assms by (auto simp: doc_closed_def field_or_empty_simps)

lemma store_closed_add:
  assumes "store_closed st" and "\<forall>e \<in> set es. set e \<subseteq> set ns"
  shows "store_closed
           (st\<lparr>graphs_collection := update_one_add_to_set k ns es (graphs_collection st)\<rparr>)"
proof (cases "graphs_collection st k")
  case None
  with assms(1) doc_closed_new [OF assms(2)] show ?thesis
    by (simp add: store_closed_def update_one_add_to_set_def)
next
  case (Some d)
  with assms(1) have "doc_closed d" unfolding store_closed_def by blast
  from doc_closed_add [OF this assms(2)] Some assms(1) show ?thesis
    by (simp add: store_closed_def update_one_add_to_set_def)
qed

lemma store_closed_pull:
  assumes "store_closed st"
  shows "store_closed
           (st\<lparr>graphs_collection := fst (update_one_pull k e (graphs_collection st))\<rparr>)"
proof (cases "graphs_collection st k")
  case None
  with assms show ?thesis by (simp add: update_one_pull_def)
next
  case (Some d)
  with assms have d: "doc_closed d" unfolding store_closed_def by blast
  show ?thesis
  proof (cases "edges d")
    case None
    with Some assms show ?thesis by (simp add: update_one_pull_def)
  next
    case es: (Some es)
    from doc_closed_pull [OF d es] Some es assms show ?thesis
      by (simp add: store_closed_def update_one_pull_def)
  qed
qed

lemma store_closed_delete_one:
  assumes "store_closed st"
  shows "store_closed (st\<lparr>graphs_collection := fst (delete_one k (graphs_collection st))\<rparr>)"
  using assms by (cases "graphs_collection st k") (simp_all add: store_closed_def delete_one_def)

lemma store_closed_connect: "store_closed st \<Longrightarrow> store_closed (store (connect url c st))"
proof -
  assume inv: "store_closed st"
  show ?thesis
  proof (cases "resolve_scope c st")
    case (Inl r)
    with inv show ?thesis by (simp add: connect_def)
  next
    case (Inr gc)
    obtain guild config where gc: "gc = (guild, config)" by (cases gc)
    let ?k = "(py_str (guild_id guild), channel_id config)"
    let ?p = "connect_loop (combinations2 (mentions c)) (existing_edges_of st ?k) empty_plan"
    have "\<forall>e \<in> set (new_edges ?p). set e \<subseteq> set (new_nodes ?p)"
      by (rule plan_closed_connect_loop) (simp add: empty_plan_def)
    then have "store_closed (st\<lparr>graphs_collection :=
        update_one_add_to_set ?k (new_nodes ?p) (new_edges ?p) (graphs_collection st)\<rparr>)"
      using inv by (intro store_closed_add)
    with inv Inr gc show ?thesis
      by (simp add: connect_def Let_def store_send_link)
  qed
qed

lemma store_closed_delete: "store_closed st \<Longrightarrow> store_closed (store (delete url c st))"
proof -
  assume inv: "store_closed st"
  show ?thesis
  proof (cases "resolve_scope c st")
    case (Inl r)
    with inv show ?thesis by (simp add: delete_def)
  next
    case (Inr gc)
    obtain guild config where gc: "gc = (guild, config)" by (cases gc)
    show ?thesis
    proof (cases "\<exists>a b. mentions c = [a, b]")
      case True
      then obtain a b where ab: "mentions c = [a, b]" by blast
      show ?thesis
        using store_closed_pull [OF inv, of "(py_str (guild_id guild), channel_id config)" "canonical_edge a b"]
          Inr gc ab
        by (simp add: delete_def Let_def store_send_link case_prod_beta)
    next
      case False
      then show ?thesis
        using inv Inr gc by (auto simp add: delete_def split: list.splits)
    qed
  qed
qed

lemma store_closed_cleargraph:
  "store_closed st \<Longrightarrow> store_closed (store (cleargraph incoming c st))"
proof -
  assume inv: "store_closed st"
  have "\<And>k. store_closed (st\<lparr>graphs_collection := fst (delete_one k (graphs_collection st))\<rparr>)"
    using inv by (rule store_closed_delete_one)
  then show ?thesis
    using inv
    by (simp add: cleargraph_def Let_def case_prod_beta split: sum.splits option.splits)
qed

text \<open>
  C8. If every end point of every stored edge is a stored node of the same document, the
  same holds after connect, after delete and after cleargraph, whatever the request.
\<close>

theorem mutations_keep_endpoints_in_nodes:
  assumes "store_closed st"
  shows "store_closed (store (connect url c st)) \<and>
         store_closed (store (delete url c st)) \<and>
         store_closed (store (cleargraph incoming c st))"
  using assms store_closed_connect store_closed_delete store_closed_cleargraph by blast

lemma store_closed_pair_db: "store_closed pair_db"
  by (simp add: store_closed_def doc_closed_def pair_db_def pair_doc_def field_or_empty_def)

theorem mutations_keep_endpoints_in_nodes_witness:
  "store_closed pair_db \<and>
   store_closed (store (connect None (request [alice, carol]) pair_db)) \<and>
   store_closed (store (delete None (request [alice, bob]) pair_db)) \<and>
   store_closed (store (cleargraph [posting 11 5 ''yes'' 3] (request []) pair_db))"
  using store_closed_pair_db
    mutations_keep_endpoints_in_nodes [OF store_closed_pair_db, of None "request [alice, carol]"]
    mutations_keep_endpoints_in_nodes [OF store_closed_pair_db, of None "request [alice, bob]"]
    mutations_keep_endpoints_in_nodes [OF store_closed_pair_db, of _ "request []" "[posting 11 5 ''yes'' 3]"]
  by blast


lemma existing_edges_after_add:
  "existing_edges_of
     (st\<lparr>graphs_collection := update_one_add_to_set k ns es (graphs_collection st)\<rparr>) k' =
   (if k' = k then add_to_set (existing_edges_of st k) es else existing_edges_of st k')"
  by (simp add: existing_edges_of_def update_one_add_to_set_def field_or_empty_simps
           split: option.splits)

lemma stored_nodes_after_add:
  "stored_nodes
     (st\<lparr>graphs_collection := update_one_add_to_set k ns es (graphs_collection st)\<rparr>) k' =
   (if k' = k then add_to_set (stored_nodes st k) ns else stored_nodes st k')"
  by (simp add: stored_nodes_def update_one_add_to_set_def field_or_empty_simps
           split: option.splits)

lemma other_docs_after_add:
  "k' \<noteq> k \<Longrightarrow> update_one_add_to_set k ns es g k' = g k'"
  by (simp add: update_one_add_to_set_def split: option.splits)

text \<open>What connect does to the database: nothing, or one merge of the plan it computed.\<close>

lemma store_connect:
  "store (connect url c st) = st \<or>
   (\<exists>guild config.
      resolve_scope c st = Inr (guild, config) \<and>
      store (connect url c st) =
        st\<lparr>graphs_collection :=
             update_one_add_to_set (py_str (guild_id guild), channel_id config)
               (new_nodes (connect_loop (combinations2 (mentions c))
                  (existing_edges_of st (py_str (guild_id guild), channel_id config)) empty_plan))
               (new_edges (connect_loop (combinations2 (mentions c))
                  (existing_edges_of st (py_str (guild_id guild), channel_id config)) empty_plan))
               (graphs_collection st)\<rparr>)"
  by (cases "resolve_scope c st") (auto simp: connect_def Let_def store_send_link)

text \<open>
  C2 (as the program has it). When the mentioned users are pairwise distinct, connect
  stores no edge from a user to the same user: a self-loop found in the database
  afterwards was in it before. The mentions are paired position by position; the list is
  not reduced to its distinct users first.
\<close>

theorem connect_distinct_no_self_loop:
  assumes "distinct (map uid (mentions c))"
  shows "\<forall>k e. e \<in> set (existing_edges_of (store (connect url c st)) k) \<and> self_loop e
               \<longrightarrow> e \<in> set (existing_edges_of st k)"
proof (intro allI impI)
  fix k e
  assume a: "e \<in> set (existing_edges_of (store (connect url c st)) k) \<and> self_loop e"
  from store_connect [of url c st] show "e \<in> set (existing_edges_of st k)"
  proof
    assume "store (connect url c st) = st"
    with a show ?thesis by simp
  next
    assume "\<exists>guild config.
      resolve_scope c st = Inr (guild, config) \<and>
      store (connect url c st) =
        st\<lparr>graphs_collection :=
             update_one_add_to_set (py_str (guild_id guild), channel_id config)
               (new_nodes (connect_loop (combinations2 (mentions c))
                  (existing_edges_of st (py_str (guild_id guild), channel_id config)) empty_plan))
               (new_edges (connect_loop (combinations2 (mentions c))
                  (existing_edges_of st (py_str (guild_id guild), channel_id config)) empty_plan))
               (graphs_collection st)\<rparr>"
    then obtain guild :: guild and config :: config where
      s: "store (connect url c st) =
        st\<lparr>graphs_collection :=
             update_one_add_to_set (py_str (guild_id guild), channel_id config)
               (new_nodes (connect_loop (combinations2 (mentions c))
                  (existing_edges_of st (py_str (guild_id guild), channel_id config)) empty_plan))
               (new_edges (connect_loop (combinations2 (mentions c))
                  (existing_edges_of st (py_str (guild_id guild), channel_id config)) empty_plan))
               (graphs_collection st)\<rparr>"
      by blast
    let ?k = "(py_str (guild_id guild), channel_id config)"
    let ?p = "connect_loop (combinations2 (mentions c)) (existing_edges_of st ?k) empty_plan"
    have new: "\<not> self_loop x" if "x \<in> set (new_edges ?p)" for x
    proof -
      from that obtain m1 m2 where "(m1, m2) \<in> set (combinations2 (mentions c))"
        and x: "x = canonical_edge m1 m2"
        by (auto simp: new_edges_connect_loop empty_plan_def)
      with assms have "uid m1 \<noteq> uid m2"
        by (auto dest: combinations2_distinct_ends)
      with x show ?thesis by (simp add: self_loop_canonical_edge)
    qed
    from a have "e \<in> set (existing_edges_of st k) \<or> e \<in> set (new_edges ?p)"
      unfolding s existing_edges_after_add by (auto simp: set_add_to_set split: if_splits)
    with a new show ?thesis by blast
  qed
qed

theorem connect_distinct_no_self_loop_witness:
  "distinct (map uid (mentions (request [alice, bob, carol]))) \<and>
   self_loop [''11'', ''11''] \<and>
   [''11'', ''11'']
     \<notin> set (existing_edges_of (store (connect None (request [alice, bob, carol]) fresh_db))
              home_scope)"
proof -
  have h: "distinct (map uid (mentions (request [alice, bob, carol])))"
    by (simp add: request_def alice_def bob_def carol_def)
  have l: "self_loop [''11'', ''11'']"
    by (simp add: self_loop_def)
  have b: "existing_edges_of fresh_db home_scope = []"
    by (simp add: existing_edges_of_def fresh_db_def)
  have "[''11'', ''11'']
          \<in> set (existing_edges_of (store (connect None (request [alice, bob, carol]) fresh_db))
                   home_scope)
        \<and> self_loop [''11'', ''11'']
        \<longrightarrow> [''11'', ''11''] \<in> set (existing_edges_of fresh_db home_scope)"
    using connect_distinct_no_self_loop [OF h, of None fresh_db] by blast
  with h l b show ?thesis by simp
qed

text \<open>
  C2 as stated fails: for the mentions alice, alice, bob on an empty graph connect stores
  the self-loop of alice beside the edge alice-bob.
\<close>

theorem connect_duplicate_self_loop_counterexample:
  "graphs_collection fresh_db home_scope = None \<and>
   graphs_collection (store (connect (Some ''url'') (request [alice, alice, bob]) fresh_db))
       home_scope
     = Some \<lparr>nodes = Some [''11'', ''2''], edges = Some [[''11'', ''11''], [''11'', ''2'']]\<rparr> \<and>
   self_loop [''11'', ''11'']"
  by code_simp


text \<open>
  C4. For n at least 2 pairwise distinct mentioned users none of whose canonical edges is
  stored, connect appends to the stored edges the canonical edge of every pair, each once:
  n choose 2 new edges. The stored nodes afterwards are the stored nodes before together
  with the n identifiers of the mentioned users, and exactly those n when no node was
  stored before. No other document changes.
\<close>

theorem connect_inserts_all_pairs:
  assumes "resolve_scope c st = Inr (guild, config)"
    and "k = (py_str (guild_id guild), channel_id config)"
    and "distinct (map uid (mentions c))"
    and "2 \<le> length (mentions c)"
    and "\<forall>(a, b) \<in> set (combinations2 (mentions c)).
           canonical_edge a b \<notin> set (existing_edges_of st k)"
  shows "existing_edges_of (store (connect url c st)) k
           = existing_edges_of st k
             @ map (\<lambda>(a, b). canonical_edge a b) (combinations2 (mentions c)) \<and>
         distinct (map (\<lambda>(a, b). canonical_edge a b) (combinations2 (mentions c))) \<and>
         length (existing_edges_of (store (connect url c st)) k)
           = length (existing_edges_of st k) + (length (mentions c) choose 2) \<and>
         set (stored_nodes (store (connect url c st)) k)
           = set (stored_nodes st k) \<union> (\<lambda>m. py_str (uid m)) ` set (mentions c) \<and>
         card ((\<lambda>m. py_str (uid m)) ` set (mentions c)) = length (mentions c) \<and>
         (stored_nodes st k = []
            \<longrightarrow> length (stored_nodes (store (connect url c st)) k) = length (mentions c)) \<and>
         (\<forall>k'. k' \<noteq> k
            \<longrightarrow> graphs_collection (store (connect url c st)) k' = graphs_collection st k') \<and>
         (\<exists>more. sent (connect url c st) = ConnectionsAdded # more)"
proof -
  let ?ms = "mentions c"
  let ?E = "map (\<lambda>(a, b). canonical_edge a b) (combinations2 ?ms)"
  let ?p = "connect_loop (combinations2 ?ms) (existing_edges_of st k) empty_plan"
  let ?ids = "(\<lambda>m. py_str (uid m)) ` set ?ms"
  have all_new: "filter (\<lambda>(a, b). canonical_edge a b \<notin> set (existing_edges_of st k))
                   (combinations2 ?ms) = combinations2 ?ms"
    using assms(5) by (auto simp: filter_id_conv)
  have edges_p: "new_edges ?p = ?E"
    by (simp add: new_edges_connect_loop empty_plan_def all_new)
  have "set (new_nodes ?p) = (\<Union>(a, b) \<in> set (combinations2 ?ms). {py_str (uid a), py_str (uid b)})"
    by (simp add: new_nodes_connect_loop empty_plan_def all_new)
  also have "\<dots> = (\<lambda>m. py_str (uid m)) ` (\<Union>(a, b) \<in> set (combinations2 ?ms). {a, b})"
    by auto
  also have "\<dots> = ?ids"
    using assms(4) by (simp only: ends_combinations2)
  finally have nodes_p: "set (new_nodes ?p) = ?ids" .
  have dist_p: "distinct (new_nodes ?p)"
    by (rule distinct_new_nodes_connect_loop) (simp add: empty_plan_def)
  have dist_E: "distinct ?E"
    using assms(3) by (rule distinct_canonical_edges)
  have len_E: "length ?E = length ?ms choose 2"
    by (simp add: length_combinations2)
  have "0 < length ?ms choose 2"
    using assms(4) by (rule zero_less_binomial)
  with len_E have "?E \<noteq> []" by auto
  with edges_p have nonempty: "new_edges ?p \<noteq> []" by simp
  have run: "connect url c st = send_link url guild config [ConnectionsAdded]
      (st\<lparr>graphs_collection :=
            update_one_add_to_set k (new_nodes ?p) (new_edges ?p) (graphs_collection st)\<rparr>)"
    using assms(1,2,4) nonempty by (simp add: connect_def Let_def)
  have after: "store (connect url c st) =
      st\<lparr>graphs_collection :=
            update_one_add_to_set k (new_nodes ?p) ?E (graphs_collection st)\<rparr>"
    by (simp add: run store_send_link edges_p)
  have fresh: "set ?E \<inter> set (existing_edges_of st k) = {}"
    using assms(5) by auto
  have e1: "existing_edges_of (store (connect url c st)) k = existing_edges_of st k @ ?E"
    unfolding after existing_edges_after_add using dist_E fresh by (simp add: add_to_set_fresh)
  have e3: "length (existing_edges_of (store (connect url c st)) k)
           = length (existing_edges_of st k) + (length ?ms choose 2)"
    unfolding e1 using len_E by simp
  have n1: "set (stored_nodes (store (connect url c st)) k) = set (stored_nodes st k) \<union> ?ids"
    unfolding after stored_nodes_after_add by (simp add: set_add_to_set nodes_p)
  have "distinct (map (\<lambda>m. py_str (uid m)) ?ms)"
    using assms(3) by (simp add: distinct_map inj_on_def py_str_inj comp_def)
  then have n2: "card ?ids = length ?ms"
    using distinct_card [of "map (\<lambda>m. py_str (uid m)) ?ms"] by simp
  have n3: "length (stored_nodes (store (connect url c st)) k) = length ?ms"
    if "stored_nodes st k = []"
  proof -
    have "stored_nodes (store (connect url c st)) k = new_nodes ?p"
      unfolding after stored_nodes_after_add using that dist_p by (simp add: add_to_set_fresh)
    moreover have "length (new_nodes ?p) = card (set (new_nodes ?p))"
      using dist_p by (simp add: distinct_card)
    ultimately show ?thesis by (simp add: nodes_p n2)
  qed
  have o: "\<forall>k'. k' \<noteq> k
            \<longrightarrow> graphs_collection (store (connect url c st)) k' = graphs_collection st k'"
    unfolding after by (simp add: other_docs_after_add)
  have m: "\<exists>more. sent (connect url c st) = ConnectionsAdded # more"
    using sent_send_link [of url guild config "[ConnectionsAdded]"] unfolding run by simp
  from e1 dist_E e3 n1 n2 n3 o m show ?thesis by blast
qed

text \<open>
  On the example: alice, carol and bob on an empty graph give the three edges
  11-30, 11-2 and 2-30 and the three nodes 11, 30 and 2.
\<close>

theorem connect_inserts_all_pairs_witness:
  "resolve_scope (request [alice, carol, bob]) fresh_db = Inr (home, home_config) \<and>
   distinct (map uid (mentions (request [alice, carol, bob]))) \<and>
   2 \<le> length (mentions (request [alice, carol, bob])) \<and>
   existing_edges_of fresh_db home_scope = [] \<and>
   stored_nodes fresh_db home_scope = [] \<and>
   existing_edges_of (store (connect None (request [alice, carol, bob]) fresh_db)) home_scope
     = [[''11'', ''30''], [''11'', ''2''], [''2'', ''30'']] \<and>
   length (existing_edges_of (store (connect None (request [alice, carol, bob]) fresh_db))
             home_scope) = 3 \<and>
   set (stored_nodes (store (connect None (request [alice, carol, bob]) fresh_db)) home_scope)
     = {''11'', ''30'', ''2''} \<and>
   length (stored_nodes (store (connect None (request [alice, carol, bob]) fresh_db))
             home_scope) = 3"
proof -
  let ?c = "request [alice, carol, bob]"
  have h1: "resolve_scope ?c fresh_db = Inr (home, home_config)"
    by (rule resolve_request)
  have h2: "home_scope = (py_str (guild_id home), channel_id home_config)"
    by (simp add: home_key)
  have h3: "distinct (map uid (mentions ?c))"
    by (simp add: request_def alice_def bob_def carol_def)
  have h4: "2 \<le> length (mentions ?c)"
    by (simp add: request_def)
  have ex: "existing_edges_of fresh_db home_scope = []"
    by (simp add: existing_edges_of_def fresh_db_def)
  have sn: "stored_nodes fresh_db home_scope = []"
    by (simp add: stored_nodes_def fresh_db_def)
  have h5: "\<forall>(a, b) \<in> set (combinations2 (mentions ?c)).
              canonical_edge a b \<notin> set (existing_edges_of fresh_db home_scope)"
    by (simp add: ex)
  have ms: "mentions ?c = [alice, carol, bob]"
    by (simp add: request_def)
  have E: "map (\<lambda>(a, b). canonical_edge a b) (combinations2 [alice, carol, bob])
             = [[''11'', ''30''], [''11'', ''2''], [''2'', ''30'']]"
    by code_simp
  have ids: "(\<lambda>m. py_str (uid m)) ` set [alice, carol, bob] = {''11'', ''30'', ''2''}"
    by code_simp
  have ch: "(3::nat) choose 2 = 3"
    by code_simp
  show ?thesis
    using h1 h3 h4 ex sn connect_inserts_all_pairs [OF h1 h2 h3 h4 h5, of None]
    unfolding ms E ids ex sn by (simp add: ch)
qed

end
